theory Spec2Isabelle
  imports Main "HOL-Library.AList" "HOL-Library.Sublist"
begin

section \<open>The installer (src/installer.py) as state-passing functions\<close>

text \<open>
  The program is a sequence of library calls on the file system, the network and the
  console. Each source function becomes a function from the world (the file system and
  the trace of calls the program made) to an outcome (the exception raised, or the value
  returned) and the world it leaves. A raised exception keeps the changes made before
  it, as in Python. The library calls are modelled by their documented behaviour; the
  progress bars (tqdm, rich.progress.track) only draw and are left out.
\<close>

subsection \<open>Values: paths, JSON documents, file contents\<close>

text \<open>A path is the list of its components below the root.\<close>

type_synonym path = "string list"

text \<open>
  What \<^verbatim>\<open>json.load\<close> returns: \<^verbatim>\<open>None\<close>, a bool, a number, a str, a list, or a
  dict. A dict is an association list: Python dicts keep insertion order, a new key goes
  last. No operation of the program reads a number, so integers stand for all of them.
\<close>

datatype json =
    JNull
  | JBool bool
  | JNum int
  | JStr string
  | JArr "json list"
  | JObj "(string \<times> json) list"

text \<open>
  The bytes of a file are described by what the two readers of the program make of them:
  \<^verbatim>\<open>json.load\<close> on the file opened as UTF-8 text returns a value, raises
  \<^verbatim>\<open>JSONDecodeError\<close> (text that is not JSON), or raises \<^verbatim>\<open>UnicodeDecodeError\<close> (bytes
  that are not UTF-8, raised by the read inside \<^verbatim>\<open>json.load\<close>);
  \<^verbatim>\<open>zipfile.ZipFile\<close> opens the file as an archive with a list of members, or raises
  \<^verbatim>\<open>BadZipFile\<close>. A member is listed with the relative path \<^verbatim>\<open>ZipFile.extract\<close> gives
  it under the target directory (the components of its name, without empty, \<^verbatim>\<open>.\<close> and
  \<^verbatim>\<open>..\<close> parts); it is a directory entry, a file with its bytes, or an entry whose data
  cannot be read: then it gives what the target file holds when the read fails (nothing
  when the entry cannot even be opened, so that no file is made) and the text of the
  \<^verbatim>\<open>BadZipFile\<close> raised.
\<close>

datatype load_result = Loads json | JSONDecodeError | Undecodable

datatype content = Content load_result "(path \<times> entry) list option"
  and entry = EDir | EFile content | ECorrupt "content option" string

fun as_json :: "content \<Rightarrow> load_result" where
  "as_json (Content j z) = j"

fun as_zip :: "content \<Rightarrow> (path \<times> entry) list option" where
  "as_zip (Content j z) = z"

text \<open>The text \<^verbatim>\<open>json.dump\<close> writes loads back as the value dumped, and is no archive.\<close>

definition json_text :: "json \<Rightarrow> content" where
  "json_text j = Content (Loads j) None"


subsection \<open>Exceptions and their texts\<close>

text \<open>
  The exceptions the program can meet. The program prints \<^verbatim>\<open>str(e)\<close> of the exceptions
  it catches, so an exception carries its text where the text varies: the operating
  system, \<^verbatim>\<open>requests\<close>, \<^verbatim>\<open>zipfile\<close>, \<^verbatim>\<open>shutil\<close> and \<^verbatim>\<open>rich\<close> put the path, the URL or
  the tag they failed on into it. \<^verbatim>\<open>HTTPError\<close> also carries the status.
\<close>

datatype error =
    HTTPError nat string
  | ConnectionError string
  | ChunkedEncodingError string
  | ValueError string
  | UnicodeDecodeError
  | KeyError string
  | TypeError
  | BadZipFile string
  | ShutilError string
  | FileNotFoundError string
  | FileExistsError string
  | IsADirectoryError string
  | NotADirectoryError string
  | OSError string
  | MarkupError string

text \<open>
  \<^verbatim>\<open>except requests.exceptions.RequestException\<close> catches the exceptions of the requests
  library, \<^verbatim>\<open>except zipfile.BadZipFile\<close> that one; every exception above is an
  \<^verbatim>\<open>Exception\<close>.
\<close>

fun is_RequestException :: "error \<Rightarrow> bool" where
  "is_RequestException (HTTPError status text) = True"
| "is_RequestException (ConnectionError text) = True"
| "is_RequestException (ChunkedEncodingError text) = True"
| "is_RequestException _ = False"

fun is_BadZipFile :: "error \<Rightarrow> bool" where
  "is_BadZipFile (BadZipFile text) = True"
| "is_BadZipFile _ = False"

text \<open>A number in decimal digits, and a text between single quotes.\<close>

function decimal :: "nat \<Rightarrow> string" where
  "decimal n =
     (if n < 10 then [''0123456789'' ! n] else decimal (n div 10) @ [''0123456789'' ! (n mod 10)])"
  by pat_completeness auto

termination
  by (relation "measure id") auto

declare decimal.simps [simp del]

definition quoted :: "string \<Rightarrow> string" where
  "quoted s = [CHR 0x27] @ s @ [CHR 0x27]"

text \<open>
  \<^verbatim>\<open>repr\<close> of a str: between single quotes, or double quotes when the text holds a single
  quote and no double quote; the backslash, the quote used, and the control characters
  are escaped. Bytes above 127 stand for the printable characters they encode.
\<close>

definition repr_char :: "char \<Rightarrow> char \<Rightarrow> string" where
  "repr_char quote c =
     (if c = CHR 0x5C then [CHR 0x5C, CHR 0x5C]
      else if c = quote then [CHR 0x5C, quote]
      else if c = CHR 0x0A then [CHR 0x5C, CHR ''n'']
      else if c = CHR 0x0D then [CHR 0x5C, CHR ''r'']
      else if c = CHR 0x09 then [CHR 0x5C, CHR ''t'']
      else if (of_char c :: nat) < 32 \<or> (of_char c :: nat) = 127 then
        [CHR 0x5C, CHR ''x'', ''0123456789abcdef'' ! (of_char c div 16),
         ''0123456789abcdef'' ! (of_char c mod 16)]
      else [c])"

definition py_repr :: "string \<Rightarrow> string" where
  "py_repr s =
     (let quote = (if CHR 0x27 \<in> set s \<and> CHR 0x22 \<notin> set s then CHR 0x22 else CHR 0x27)
      in [quote] @ concat (map (repr_char quote) s) @ [quote])"

text \<open>
  A path as text, in the POSIX form: \<^verbatim>\<open>os.path.join\<close> and \<^verbatim>\<open>str\<close> of a \<^verbatim>\<open>Path\<close> put a
  slash before each component.
\<close>

definition path_text :: "path \<Rightarrow> string" where
  "path_text p = (if p = [] then ''/'' else concat (map (\<lambda>x. CHR ''/'' # x) p))"

text \<open>
  The errors of the operating system, and the exception Python makes of one for the path
  given to the failing call: \<^verbatim>\<open>[Errno 2] No such file or directory: '/a/b'\<close>.
\<close>

datatype oserr = ENOENT | EEXIST | EISDIR | ENOTDIR | EINVAL

fun os_error :: "oserr \<Rightarrow> path \<Rightarrow> error" where
  "os_error ENOENT p = FileNotFoundError (''[Errno 2] No such file or directory: '' @ py_repr (path_text p))"
| "os_error EEXIST p = FileExistsError (''[Errno 17] File exists: '' @ py_repr (path_text p))"
| "os_error EISDIR p = IsADirectoryError (''[Errno 21] Is a directory: '' @ py_repr (path_text p))"
| "os_error ENOTDIR p = NotADirectoryError (''[Errno 20] Not a directory: '' @ py_repr (path_text p))"
| "os_error EINVAL p = OSError (''[Errno 22] Invalid argument: '' @ py_repr (path_text p))"

definition located :: "path \<Rightarrow> oserr + 'a \<Rightarrow> error + 'a" where
  "located p r = (case r of Inl k \<Rightarrow> Inl (os_error k p) | Inr x \<Rightarrow> Inr x)"

text \<open>
  \<^verbatim>\<open>str(e)\<close>. A \<^verbatim>\<open>KeyError\<close> shows the \<^verbatim>\<open>repr\<close> of the key. The texts of \<^verbatim>\<open>TypeError\<close>
  and \<^verbatim>\<open>UnicodeDecodeError\<close> name the type or the byte at fault; one text stands for
  each, none holds a bracket.
\<close>

fun error_text :: "error \<Rightarrow> string" where
  "error_text (HTTPError status text) = text"
| "error_text (ConnectionError text) = text"
| "error_text (ChunkedEncodingError text) = text"
| "error_text (ValueError text) = text"
| "error_text UnicodeDecodeError =
     quoted ''utf-8'' @ '' codec can'' @ [CHR 0x27] @ ''t decode byte 0xff in position 0: invalid start byte''"
| "error_text (KeyError k) = py_repr k"
| "error_text TypeError = quoted ''NoneType'' @ '' object is not subscriptable''"
| "error_text (BadZipFile text) = text"
| "error_text (ShutilError text) = text"
| "error_text (FileNotFoundError text) = text"
| "error_text (FileExistsError text) = text"
| "error_text (IsADirectoryError text) = text"
| "error_text (NotADirectoryError text) = text"
| "error_text (OSError text) = text"
| "error_text (MarkupError text) = text"

subsection \<open>The file system\<close>

text \<open>
  A tree of directories and files. A directory lists its entries in order; the first
  entry of a name is the one a lookup finds.
\<close>

datatype node = File content | Dir "(string \<times> node) list"

fun lookup :: "node \<Rightarrow> path \<Rightarrow> node option" where
  "lookup n [] = Some n"
| "lookup (File c) (x # xs) = None"
| "lookup (Dir es) (x # xs) = (case map_of es x of None \<Rightarrow> None | Some m \<Rightarrow> lookup m xs)"

text \<open>What a path is: nothing, a directory, or a file with its content.\<close>

datatype kind = Absent | IsDir | IsFile content

definition stat :: "node \<Rightarrow> path \<Rightarrow> kind" where
  "stat t p = (case lookup t p of None \<Rightarrow> Absent | Some (Dir es) \<Rightarrow> IsDir | Some (File c) \<Rightarrow> IsFile c)"

text \<open>
  Why a path that is not there cannot be opened: a component is missing, or the path
  runs through a file.
\<close>

fun absent_errno :: "node \<Rightarrow> path \<Rightarrow> oserr" where
  "absent_errno n [] = ENOENT"
| "absent_errno (File c) (x # xs) = ENOTDIR"
| "absent_errno (Dir es) (x # xs) = (case map_of es x of None \<Rightarrow> ENOENT | Some m \<Rightarrow> absent_errno m xs)"

text \<open>
  \<open>alter f p t\<close> changes the entry at \<open>p\<close>: \<open>f\<close> sees what is there and says what shall
  be there, or fails. The directories above \<open>p\<close> must exist.
\<close>

fun alter :: "(node option \<Rightarrow> oserr + node option) \<Rightarrow> path \<Rightarrow> node \<Rightarrow> oserr + node" where
  "alter f [] n =
     (case f (Some n) of Inl e \<Rightarrow> Inl e | Inr None \<Rightarrow> Inl EINVAL | Inr (Some n') \<Rightarrow> Inr n')"
| "alter f (x # xs) (File c) = Inl ENOTDIR"
| "alter f (x # xs) (Dir es) =
     (if xs = [] then
        (case f (map_of es x) of
           Inl e \<Rightarrow> Inl e
         | Inr None \<Rightarrow> Inr (Dir (AList.delete x es))
         | Inr (Some m) \<Rightarrow> Inr (Dir (AList.update x m es)))
      else
        (case map_of es x of
           None \<Rightarrow> Inl ENOENT
         | Some m \<Rightarrow>
             (case alter f xs m of Inl e \<Rightarrow> Inl e | Inr m' \<Rightarrow> Inr (Dir (AList.update x m' es)))))"

text \<open>\<^verbatim>\<open>open(p, "w")\<close> and the write: creates or replaces the file; a directory cannot be opened.\<close>

definition write_file :: "path \<Rightarrow> content \<Rightarrow> node \<Rightarrow> error + node" where
  "write_file p c t =
     located p (alter (\<lambda>old. case old of Some (Dir es) \<Rightarrow> Inl EISDIR | _ \<Rightarrow> Inr (Some (File c))) p t)"

text \<open>\<^verbatim>\<open>open(p, "r")\<close> and the read.\<close>

definition read_file :: "path \<Rightarrow> node \<Rightarrow> error + content" where
  "read_file p t =
     located p
       (case lookup t p of
          None \<Rightarrow> Inl (absent_errno t p)
        | Some (Dir es) \<Rightarrow> Inl EISDIR
        | Some (File c) \<Rightarrow> Inr c)"

text \<open>\<^verbatim>\<open>os.mkdir\<close>.\<close>

definition mkdir :: "path \<Rightarrow> node \<Rightarrow> error + node" where
  "mkdir p t =
     located p (alter (\<lambda>old. case old of None \<Rightarrow> Inr (Some (Dir [])) | Some n \<Rightarrow> Inl EEXIST) p t)"

text \<open>
  \<^verbatim>\<open>os.makedirs(p, exist_ok=True)\<close>: creates the missing directories of \<open>p\<close>; fails
  when \<open>p\<close> or a path above it is a file, and then creates nothing. The failing call is
  the \<^verbatim>\<open>mkdir\<close> of \<open>p\<close> itself when \<open>p\<close> is a file, and of the path one component below the
  file otherwise; \<open>mkdirs\<close> gives the path of the failing call from where it stands.
\<close>

fun mkdirs :: "path \<Rightarrow> node \<Rightarrow> (oserr \<times> path) + node" where
  "mkdirs [] (Dir es) = Inr (Dir es)"
| "mkdirs [] (File c) = Inl (EEXIST, [])"
| "mkdirs (x # xs) (File c) = Inl (ENOTDIR, [x])"
| "mkdirs (x # xs) (Dir es) =
     (case mkdirs xs (case map_of es x of None \<Rightarrow> Dir [] | Some m \<Rightarrow> m) of
        Inl (k, q) \<Rightarrow> Inl (k, x # q)
      | Inr m' \<Rightarrow> Inr (Dir (AList.update x m' es)))"

definition makedirs :: "path \<Rightarrow> node \<Rightarrow> error + node" where
  "makedirs p t = (case mkdirs p t of Inl (k, q) \<Rightarrow> Inl (os_error k q) | Inr t' \<Rightarrow> Inr t')"

text \<open>\<^verbatim>\<open>shutil.rmtree\<close>: removes a directory with all below it.\<close>

definition rmtree :: "path \<Rightarrow> node \<Rightarrow> error + node" where
  "rmtree p t =
     located p
       (alter (\<lambda>old. case old of
                      None \<Rightarrow> Inl ENOENT
                    | Some (File c) \<Rightarrow> Inl ENOTDIR
                    | Some (Dir es) \<Rightarrow> Inr None) p t)"

text \<open>
  \<^verbatim>\<open>os.rename(src, dst)\<close> for a \<open>dst\<close> that does not exist, as \<^verbatim>\<open>shutil.move\<close> uses it:
  the entry at \<open>src\<close>, with all below it, goes to \<open>dst\<close>. A directory cannot go below
  itself. When \<open>src\<close> is not there, the copy that \<^verbatim>\<open>shutil.move\<close> falls back to fails to
  open it.
\<close>

definition rename :: "path \<Rightarrow> path \<Rightarrow> node \<Rightarrow> error + node" where
  "rename src dst t =
     (case lookup t src of
        None \<Rightarrow> Inl (os_error (absent_errno t src) src)
      | Some n \<Rightarrow>
          if prefix src dst then Inl (os_error EINVAL src)
          else
            (case alter (\<lambda>old. Inr None) src t of
               Inl k \<Rightarrow> Inl (os_error k src)
             | Inr t' \<Rightarrow>
                 located dst
                   (alter (\<lambda>old. case old of None \<Rightarrow> Inr (Some n) | Some m \<Rightarrow> Inl EEXIST) dst t')))"

text \<open>
  \<^verbatim>\<open>shutil.move(src, dst)\<close>. When \<open>dst\<close> is a directory the entry goes inside it under
  its own name, and \<^verbatim>\<open>shutil.Error\<close> is raised when that name is taken there
  (\<^verbatim>\<open>Destination path ... already exists\<close>; the root has the empty name) or when a
  directory would go below itself. Otherwise \<open>src\<close> is renamed to \<open>dst\<close>, over a file that
  may be there. The program calls it only with the directory that \<^verbatim>\<open>os.makedirs\<close> has just
  made or found.
\<close>

definition shutil_move :: "path \<Rightarrow> path \<Rightarrow> node \<Rightarrow> error + node" where
  "shutil_move src dst t =
     (case lookup t dst of
        Some (Dir es) \<Rightarrow>
          if src = dst then Inr t
          else if src = [] then
            Inl (ShutilError (''Destination path '' @ quoted (path_text dst @ ''/'') @ '' already exists''))
          else if lookup t (dst @ [last src]) \<noteq> None then
            Inl (ShutilError (''Destination path '' @ quoted (path_text (dst @ [last src])) @ '' already exists''))
          else if lookup t src \<noteq> None \<and> prefix src dst then
            Inl (ShutilError (''Cannot move a directory '' @ quoted (path_text src) @ '' into itself '' @
                              quoted (path_text dst) @ ''.''))
          else rename src (dst @ [last src]) t
      | Some (File c) \<Rightarrow>
          if src = dst then Inr t
          else
            (case lookup t src of
               None \<Rightarrow> Inl (os_error (absent_errno t src) src)
             | Some (Dir ds) \<Rightarrow> Inl (os_error EEXIST dst)
             | Some (File c') \<Rightarrow>
                 (case write_file dst c' t of
                    Inl e \<Rightarrow> Inl e
                  | Inr t' \<Rightarrow> located src (alter (\<lambda>old. Inr None) src t')))
      | None \<Rightarrow> rename src dst t)"

text \<open>\<^verbatim>\<open>os.listdir\<close>: the names in a directory.\<close>

definition listdir :: "path \<Rightarrow> node \<Rightarrow> error + string list" where
  "listdir p t =
     located p
       (case lookup t p of
          None \<Rightarrow> Inl (absent_errno t p)
        | Some (File c) \<Rightarrow> Inl ENOTDIR
        | Some (Dir es) \<Rightarrow> Inr (remdups (map fst es)))"

subsection \<open>The console\<close>

text \<open>
  The console messages of the program, one constructor for each \<^verbatim>\<open>console.print\<close> of
  the source, with the values its text shows.
\<close>

datatype message =
    MsgDownloading string
  | MsgDownloadComplete path
  | MsgDownloadFailed error
  | MsgDownloadUnexpected error
  | MsgValidateUnexpected error
  | MsgValidating path
  | MsgExtracting path path
  | MsgExtractionComplete path
  | MsgNotValidZip path
  | MsgExtractUnexpected error
  | MsgSearching path
  | MsgNoJarFiles
  | MsgAllMoved path
  | MsgMoveUnexpected error
  | MsgUpdating
  | MsgCorrupted
  | MsgAdded string
  | MsgAlreadyExists string
  | MsgUpdated
  | MsgUpdateUnexpected error
  | MsgNotInstalled
  | MsgUsingTemp path
  | MsgCompleted
  | MsgFatal error
  | MsgCleanedUp path

text \<open>
  The text the program hands to \<^verbatim>\<open>console.print\<close>: the f-string of the source line,
  between the tags of its style, with the values put in as they are.
\<close>

definition styled :: "string \<Rightarrow> string \<Rightarrow> string" where
  "styled style text = ''['' @ style @ '']'' @ text @ ''[/'' @ style @ '']''"

fun message_text :: "message \<Rightarrow> string" where
  "message_text (MsgDownloading url) = styled ''blue'' (''Downloading file from '' @ url @ ''...'')"
| "message_text (MsgDownloadComplete dest_path) =
     styled ''green'' (''Download complete: '' @ path_text dest_path)"
| "message_text (MsgDownloadFailed e) = styled ''red'' (''Failed to download file: '' @ error_text e)"
| "message_text (MsgDownloadUnexpected e) =
     styled ''red'' (''Unexpected error during file download: '' @ error_text e)"
| "message_text (MsgValidateUnexpected e) =
     styled ''red'' (''Unexpected error while validating ZIP file: '' @ error_text e)"
| "message_text (MsgValidating zip_path) = styled ''blue'' (''Validating ZIP file: '' @ path_text zip_path)"
| "message_text (MsgExtracting zip_path extract_folder) =
     styled ''blue'' (''Extracting ZIP file '' @ path_text zip_path @ '' to '' @ path_text extract_folder @ ''...'')"
| "message_text (MsgExtractionComplete extract_folder) =
     styled ''green'' (''Extraction complete! Files extracted to '' @ path_text extract_folder)"
| "message_text (MsgNotValidZip zip_path) =
     styled ''red'' (''The file '' @ path_text zip_path @ '' is not a valid ZIP file.'')"
| "message_text (MsgExtractUnexpected e) =
     styled ''red'' (''Unexpected error during extraction: '' @ error_text e)"
| "message_text (MsgSearching source_folder) =
     styled ''blue'' (''Searching for JAR files in '' @ path_text source_folder @ ''...'')"
| "message_text MsgNoJarFiles = styled ''yellow'' ''No JAR files found in the source folder.''"
| "message_text (MsgAllMoved destination_folder) =
     styled ''green'' (''All JAR files moved to '' @ quoted (path_text destination_folder))"
| "message_text (MsgMoveUnexpected e) =
     styled ''red'' (''Unexpected error while moving JAR files: '' @ error_text e)"
| "message_text MsgUpdating = styled ''blue'' (''Updating '' @ quoted ''modpacks.json'' @ ''...'')"
| "message_text MsgCorrupted =
     styled ''yellow'' (quoted ''modpacks.json'' @ '' is corrupted. Overwriting it.'')"
| "message_text (MsgAdded modpack_name) =
     styled ''green'' (''Added entry for '' @ quoted modpack_name @ ''.'')"
| "message_text (MsgAlreadyExists modpack_name) =
     styled ''yellow'' (''Entry for '' @ quoted modpack_name @ '' already exists.'')"
| "message_text MsgUpdated = styled ''green'' (quoted ''modpacks.json'' @ '' has been updated!'')"
| "message_text (MsgUpdateUnexpected e) =
     styled ''red'' (''Unexpected error while updating '' @ quoted ''modpacks.json'' @ '': '' @ error_text e)"
| "message_text MsgNotInstalled = styled ''red'' ''Labymod does not seem to be installed. Aborting.''"
| "message_text (MsgUsingTemp temp_dir) =
     styled ''cyan'' (''Using temporary directory: '' @ path_text temp_dir)"
| "message_text MsgCompleted = styled ''bold green'' ''Process completed successfully!''"
| "message_text (MsgFatal e) = styled ''bold red'' (''Fatal error: '' @ error_text e)"
| "message_text (MsgCleanedUp temp_dir) =
     styled ''cyan'' (''Cleaned up temporary directory: '' @ path_text temp_dir)"

text \<open>
  \<^verbatim>\<open>console.print\<close> reads its text as markup (rich.markup.render). A tag is a \<^verbatim>\<open>[\<close>, a
  character of \<^verbatim>\<open>a-z # / @\<close>, characters other than \<^verbatim>\<open>[\<close>, and the first \<^verbatim>\<open>]\<close>; an odd
  number of backslashes before it makes it plain text. The name of a tag is its text up
  to the first \<^verbatim>\<open>=\<close>, the rest are its parameters. An opening tag goes on a stack; a
  closing tag \<^verbatim>\<open>[/name]\<close> takes the innermost open tag of that name off it, \<^verbatim>\<open>[/]\<close> the
  top one, and \<^verbatim>\<open>MarkupError\<close> is raised when there is none. Tags left open at the end
  are fine.

  Two points of the library are simplified, both so that the model raises wherever the
  library does. Names are compared after \<^verbatim>\<open>strip\<close>; the library (\<^verbatim>\<open>Style.normalize\<close>)
  also lower-cases them and brings a style definition that parses into a canonical form,
  so that it takes \<^verbatim>\<open>[/red bold]\<close> to close \<^verbatim>\<open>[bold red]\<close>. The parameters of a meta tag
  \<^verbatim>\<open>[@name=...]\<close> are evaluated as a Python literal when the tag is closed; here
  parameters that are more than a handler name are taken to fail.
\<close>

datatype tag = Tag string "string option"

fun tag_name :: "tag \<Rightarrow> string" where
  "tag_name (Tag name parameters) = name"

fun tag_markup :: "tag \<Rightarrow> string" where
  "tag_markup (Tag name None) = ''['' @ name @ '']''"
| "tag_markup (Tag name (Some parameters)) = ''['' @ name @ ''='' @ parameters @ '']''"

definition tag_start :: "char \<Rightarrow> bool" where
  "tag_start c \<longleftrightarrow> c \<in> set ''abcdefghijklmnopqrstuvwxyz#/@''"

definition is_space :: "char \<Rightarrow> bool" where
  "is_space c \<longleftrightarrow>
     c \<in> set [CHR '' '', CHR 0x09, CHR 0x0A, CHR 0x0B, CHR 0x0C, CHR 0x0D, CHR 0x1C, CHR 0x1D, CHR 0x1E, CHR 0x1F]"

definition strip :: "string \<Rightarrow> string" where
  "strip s = rev (dropWhile is_space (rev (dropWhile is_space s)))"

definition normalize :: "string \<Rightarrow> string" where
  "normalize style = strip style"

text \<open>\<^verbatim>\<open>tag_text.partition("=")\<close>.\<close>

definition parse_tag :: "string \<Rightarrow> tag" where
  "parse_tag tag_text =
     Tag (takeWhile (\<lambda>c. c \<noteq> CHR ''='') tag_text)
         (if CHR ''='' \<in> set tag_text then Some (tl (dropWhile (\<lambda>c. c \<noteq> CHR ''='') tag_text)) else None)"

text \<open>\<open>pop_style\<close> of the library: the innermost open tag of a name, and the stack without it.\<close>

fun pop_style :: "string \<Rightarrow> tag list \<Rightarrow> (tag \<times> tag list) option" where
  "pop_style style_name [] = None"
| "pop_style style_name (t # stack) =
     (if tag_name t = style_name then Some (t, stack)
      else (case pop_style style_name stack of
              None \<Rightarrow> None
            | Some (open_tag, rest) \<Rightarrow> Some (open_tag, t # rest)))"

definition word_char :: "char \<Rightarrow> bool" where
  "word_char c \<longleftrightarrow>
     c \<in> set ''abcdefghijklmnopqrstuvwxyzABCDEFGHIJKLMNOPQRSTUVWXYZ0123456789_.''"

text \<open>The error of closing a meta tag, if any.\<close>

fun meta_error :: "tag \<Rightarrow> string option" where
  "meta_error (Tag name None) = None"
| "meta_error (Tag name (Some parameters)) =
     (if take 1 name = ''@'' \<and> parameters \<noteq> [] \<and> \<not> list_all word_char (strip parameters)
      then Some (''error parsing '' @ py_repr parameters)
      else None)"

definition close_tag :: "nat \<Rightarrow> tag \<Rightarrow> tag list \<Rightarrow> string + tag list" where
  "close_tag position t stack =
     (let style_name = strip (tl (tag_name t)) in
      if style_name \<noteq> [] then
        (case pop_style (normalize style_name) stack of
           None \<Rightarrow>
             Inl (''closing tag '' @ quoted (tag_markup t) @ '' at position '' @ decimal position @
                  '' doesn'' @ [CHR 0x27] @ ''t match any open tag'')
         | Some (open_tag, rest) \<Rightarrow>
             (case meta_error open_tag of Some text \<Rightarrow> Inl text | None \<Rightarrow> Inr rest))
      else
        (case stack of
           [] \<Rightarrow>
             Inl (''closing tag '' @ quoted ''[/]'' @ '' at position '' @ decimal position @
                  '' has nothing to close'')
         | open_tag # rest \<Rightarrow>
             (case meta_error open_tag of Some text \<Rightarrow> Inl text | None \<Rightarrow> Inr rest)))"

definition apply_tag :: "nat \<Rightarrow> string \<Rightarrow> tag list \<Rightarrow> string + tag list" where
  "apply_tag position tag_text stack =
     (case parse_tag tag_text of
        Tag name parameters \<Rightarrow>
          if take 1 name = ''/'' then close_tag position (Tag name parameters) stack
          else Inr (Tag (normalize name) parameters # stack))"

text \<open>
  The scan, character by character: in plain text after a number of backslashes, just
  after a \<^verbatim>\<open>[\<close> (with the backslashes before it and its position), or inside what may
  become a tag (with its text so far). A \<^verbatim>\<open>[\<close> inside starts over: the regular
  expression of the library lets no tag hold one.
\<close>

datatype scan = Plain nat | Opened nat nat | Inside nat nat string

fun scan_char :: "nat \<Rightarrow> char \<Rightarrow> scan \<Rightarrow> tag list \<Rightarrow> string + (scan \<times> tag list)" where
  "scan_char i c (Plain n) stack =
     Inr (if c = CHR 0x5C then Plain (Suc n) else if c = CHR ''['' then Opened n i else Plain 0, stack)"
| "scan_char i c (Opened n j) stack =
     Inr (if tag_start c then Inside n j [c]
          else if c = CHR ''['' then Opened 0 i
          else if c = CHR 0x5C then Plain 1
          else Plain 0, stack)"
| "scan_char i c (Inside n j tag_text) stack =
     (if c = CHR '']'' then
        (if odd n then Inr (Plain 0, stack)
         else (case apply_tag j tag_text stack of
                 Inl text \<Rightarrow> Inl text
               | Inr stack' \<Rightarrow> Inr (Plain 0, stack')))
      else if c = CHR ''['' then
        Inr (Opened (length (takeWhile (\<lambda>d. d = CHR 0x5C) (rev tag_text))) i, stack)
      else Inr (Inside n j (tag_text @ [c]), stack))"

fun scan_markup :: "nat \<Rightarrow> scan \<Rightarrow> tag list \<Rightarrow> string \<Rightarrow> string option" where
  "scan_markup i s stack [] = None"
| "scan_markup i s stack (c # cs) =
     (case scan_char i c s stack of
        Inl text \<Rightarrow> Some text
      | Inr (s', stack') \<Rightarrow> scan_markup (Suc i) s' stack' cs)"

text \<open>The text of the \<^verbatim>\<open>MarkupError\<close> that printing a text raises, if it raises one.\<close>

definition markup_error :: "string \<Rightarrow> string option" where
  "markup_error markup = scan_markup 0 (Plain 0) [] markup"

definition printable :: "message \<Rightarrow> bool" where
  "printable m \<longleftrightarrow> markup_error (message_text m) = None"

subsection \<open>The world and the outcome of a call\<close>

text \<open>
  The calls the trace records: a console message shown, an HTTP request, the creation of
  the temporary directory, a \<^verbatim>\<open>json.dump\<close> with its indent, and the wait for a key.
\<close>

datatype event =
    Print message
  | HttpGet string
  | MkDtemp path
  | JsonDump path json nat
  | Input

record world =
  fs :: node
  trace :: "event list"

type_synonym 'a prog = "world \<Rightarrow> (error + 'a) \<times> world"

definition return :: "'a \<Rightarrow> 'a prog" where
  "return x = (\<lambda>w. (Inr x, w))"

definition raise :: "error \<Rightarrow> 'a prog" where
  "raise e = (\<lambda>w. (Inl e, w))"

text \<open>Sequencing: an exception skips what follows.\<close>

definition bind :: "'a prog \<Rightarrow> ('a \<Rightarrow> 'b prog) \<Rightarrow> 'b prog" where
  "bind m f = (\<lambda>w. case m w of (Inl e, w') \<Rightarrow> (Inl e, w') | (Inr x, w') \<Rightarrow> f x w')"

text \<open>A list of statements, run in order.\<close>

fun block :: "unit prog list \<Rightarrow> unit prog" where
  "block [] = return ()"
| "block (s # ss) = bind s (\<lambda>u. block ss)"

text \<open>
  \<^verbatim>\<open>try: m  except Exception as e: h e\<close>. An exception raised in the handler is the
  outcome.
\<close>

definition try_except :: "'a prog \<Rightarrow> (error \<Rightarrow> 'a prog) \<Rightarrow> 'a prog" where
  "try_except m h = (\<lambda>w. case m w of (Inl e, w') \<Rightarrow> h e w' | (Inr x, w') \<Rightarrow> (Inr x, w'))"

text \<open>\<^verbatim>\<open>try: m  finally: c\<close>: \<open>c\<close> runs on every exit; an exception of \<open>c\<close> replaces the outcome.\<close>

definition try_finally :: "'a prog \<Rightarrow> unit prog \<Rightarrow> 'a prog" where
  "try_finally m c =
     (\<lambda>w. case m w of (r, w') \<Rightarrow> (case c w' of (Inl e, w'') \<Rightarrow> (Inl e, w'') | (Inr u, w'') \<Rightarrow> (r, w'')))"

definition emit :: "event \<Rightarrow> unit prog" where
  "emit ev = (\<lambda>w. (Inr (), w\<lparr>trace := trace w @ [ev]\<rparr>))"

text \<open>\<^verbatim>\<open>console.print\<close>: the message is shown, or \<^verbatim>\<open>MarkupError\<close> is raised and nothing is shown.\<close>

definition print :: "message \<Rightarrow> unit prog" where
  "print m =
     (case markup_error (message_text m) of
        None \<Rightarrow> emit (Print m)
      | Some text \<Rightarrow> raise (MarkupError text))"

text \<open>The body of a handler that reports and raises again: \<^verbatim>\<open>console.print(...); raise\<close>.\<close>

definition reraise_after :: "message \<Rightarrow> error \<Rightarrow> unit prog" where
  "reraise_after m e = bind (print m) (\<lambda>u. raise e)"

text \<open>A pure library call that may raise, and a call that changes the file system.\<close>

definition lift :: "error + 'a \<Rightarrow> 'a prog" where
  "lift r = (\<lambda>w. (r, w))"

definition fs_read :: "(node \<Rightarrow> error + 'a) \<Rightarrow> 'a prog" where
  "fs_read f = (\<lambda>w. (f (fs w), w))"

definition fs_op :: "(node \<Rightarrow> error + node) \<Rightarrow> unit prog" where
  "fs_op f = (\<lambda>w. case f (fs w) of Inl e \<Rightarrow> (Inl e, w) | Inr t \<Rightarrow> (Inr (), w\<lparr>fs := t\<rparr>))"

text \<open>\<^verbatim>\<open>os.path.exists\<close>, \<^verbatim>\<open>Path.exists\<close>.\<close>

definition path_exists :: "path \<Rightarrow> bool prog" where
  "path_exists p = (\<lambda>w. (Inr (lookup (fs w) p \<noteq> None), w))"

subsection \<open>The Python operations on the loaded document\<close>

text \<open>\<^verbatim>\<open>x[k]\<close> for a str \<open>k\<close>: only a dict takes it.\<close>

fun py_getitem :: "json \<Rightarrow> string \<Rightarrow> error + json" where
  "py_getitem (JObj kvs) k = (case map_of kvs k of None \<Rightarrow> Inl (KeyError k) | Some v \<Rightarrow> Inr v)"
| "py_getitem _ k = Inl TypeError"

text \<open>
  \<^verbatim>\<open>k in x\<close> for a str \<open>k\<close>: a key of a dict, an element of a list, a substring of a
  str; \<^verbatim>\<open>None\<close>, a bool and a number are not iterable.
\<close>

fun py_contains :: "string \<Rightarrow> json \<Rightarrow> error + bool" where
  "py_contains k (JObj kvs) = Inr (map_of kvs k \<noteq> None)"
| "py_contains k (JArr xs) = Inr (JStr k \<in> set xs)"
| "py_contains k (JStr s) = Inr (sublist k s)"
| "py_contains k _ = Inl TypeError"

text \<open>\<^verbatim>\<open>x[k] = v\<close> for a str \<open>k\<close>: only a dict takes it.\<close>

fun py_setitem :: "json \<Rightarrow> string \<Rightarrow> json \<Rightarrow> error + json" where
  "py_setitem (JObj kvs) k v = Inr (JObj (AList.update k v kvs))"
| "py_setitem _ k v = Inl TypeError"

subsection \<open>update_modpacks_json (lines 85-109)\<close>

definition default_document :: json where
  "default_document = JObj [(''packs'', JObj [])]"

definition pack_record :: "string \<Rightarrow> string \<Rightarrow> string \<Rightarrow> json" where
  "pack_record modpack_name mod_loader version =
     JObj [(''name'', JStr modpack_name), (''version'', JStr version), (''modLoader'', JStr mod_loader)]"

text \<open>
  Lines 88-94: the default document, replaced by what \<^verbatim>\<open>json.load\<close> returns when the
  file exists; a \<^verbatim>\<open>JSONDecodeError\<close> is caught and keeps the default.
\<close>

definition load_modpacks :: "path \<Rightarrow> json prog" where
  "load_modpacks modpacks_file =
     bind (path_exists modpacks_file) (\<lambda>ex.
       if ex then
         bind (fs_read (read_file modpacks_file)) (\<lambda>c.
           case as_json c of
             Loads j \<Rightarrow> return j
           | JSONDecodeError \<Rightarrow> bind (print MsgCorrupted) (\<lambda>u. return default_document)
           | Undecodable \<Rightarrow> raise UnicodeDecodeError)
       else return default_document)"

text \<open>
  Lines 95-103: the insert guarded by the membership test. The result is the document to
  write and the message to print.
\<close>

definition insert_pack :: "json \<Rightarrow> string \<Rightarrow> string \<Rightarrow> string \<Rightarrow> string \<Rightarrow> error + (json \<times> message)" where
  "insert_pack modpacks_data modpack_key modpack_name mod_loader version =
     (case py_getitem modpacks_data ''packs'' of
        Inl e \<Rightarrow> Inl e
      | Inr packs \<Rightarrow>
          (case py_contains modpack_key packs of
             Inl e \<Rightarrow> Inl e
           | Inr present \<Rightarrow>
               if \<not> present then
                 (case py_setitem packs modpack_key (pack_record modpack_name mod_loader version) of
                    Inl e \<Rightarrow> Inl e
                  | Inr packs' \<Rightarrow>
                      (case py_setitem modpacks_data ''packs'' packs' of
                         Inl e \<Rightarrow> Inl e
                       | Inr data' \<Rightarrow> Inr (data', MsgAdded modpack_name)))
               else Inr (modpacks_data, MsgAlreadyExists modpack_name)))"

text \<open>Lines 104-105: the file is opened for writing and the document dumped with indent 4.\<close>

definition dump_modpacks :: "path \<Rightarrow> json \<Rightarrow> unit prog" where
  "dump_modpacks modpacks_file modpacks_data =
     bind (fs_op (write_file modpacks_file (json_text modpacks_data))) (\<lambda>u.
       emit (JsonDump modpacks_file modpacks_data 4))"

definition update_modpacks_json :: "path \<Rightarrow> string \<Rightarrow> string \<Rightarrow> string \<Rightarrow> string \<Rightarrow> unit prog" where
  "update_modpacks_json modpacks_file modpack_key modpack_name mod_loader version =
     try_except
       (bind (print MsgUpdating) (\<lambda>u.
        bind (load_modpacks modpacks_file) (\<lambda>modpacks_data.
        bind (lift (insert_pack modpacks_data modpack_key modpack_name mod_loader version)) (\<lambda>(data', msg).
        bind (print msg) (\<lambda>u.
        bind (dump_modpacks modpacks_file data') (\<lambda>u.
        print MsgUpdated))))))
       (\<lambda>e. reraise_after (MsgUpdateUnexpected e) e)"

subsection \<open>The network\<close>

text \<open>
  What \<^verbatim>\<open>requests.get(url, stream=True)\<close> meets: no connection, with the text of the
  \<^verbatim>\<open>ConnectionError\<close>; or a response with its status, its reason phrase, the URL it
  came from, its \<^verbatim>\<open>content-length\<close> header (missing, an integer, or a value \<^verbatim>\<open>int\<close>
  rejects) and its body. The body arrives whole, or the connection breaks: then the
  content given is what the chunks that \<^verbatim>\<open>iter_content\<close> had yielded before hold (no
  bytes when it breaks within the first chunk of 8192), with the text of the exception.
\<close>

datatype length_header = NoLength | Length int | NotANumber string

datatype body = Complete content | Broken content string

datatype response = Unreachable string | Response nat string string length_header body

text \<open>
  The environment of a run: the home directory, the network, and the directory
  \<^verbatim>\<open>tempfile.mkdtemp\<close> creates.
\<close>

record env =
  home_dir :: path
  http :: "string \<Rightarrow> response"
  fresh_tmp :: path

definition requests_get :: "env \<Rightarrow> string \<Rightarrow> (nat \<times> string \<times> string \<times> length_header \<times> body) prog" where
  "requests_get env url =
     bind (emit (HttpGet url)) (\<lambda>u.
       case http env url of
         Unreachable text \<Rightarrow> raise (ConnectionError text)
       | Response status reason from len b \<Rightarrow> return (status, reason, from, len, b))"

text \<open>
  \<^verbatim>\<open>Response.raise_for_status\<close>: the statuses 400 to 499 raise \<^verbatim>\<open>HTTPError\<close> as client
  errors, 500 to 599 as server errors; no other status raises.
\<close>

definition http_error_text :: "nat \<Rightarrow> string \<Rightarrow> string \<Rightarrow> string" where
  "http_error_text status reason from =
     decimal status @ (if status < 500 then '' Client Error: '' else '' Server Error: '') @
     reason @ '' for url: '' @ from"

definition raise_for_status :: "nat \<Rightarrow> string \<Rightarrow> string \<Rightarrow> unit prog" where
  "raise_for_status status reason from =
     (if 400 \<le> status \<and> status < 600 then raise (HTTPError status (http_error_text status reason from))
      else return ())"

text \<open>\<^verbatim>\<open>int(response.headers.get('content-length', 0))\<close>.\<close>

fun total_size :: "length_header \<Rightarrow> error + int" where
  "total_size NoLength = Inr 0"
| "total_size (Length n) = Inr n"
| "total_size (NotANumber v) = Inl (ValueError (''invalid literal for int() with base 10: '' @ py_repr v))"

text \<open>
  Lines 21-31: the file is opened for writing, then the chunks are written as they
  arrive; when the connection breaks the file holds the chunks written before.
\<close>

fun write_chunks :: "path \<Rightarrow> body \<Rightarrow> unit prog" where
  "write_chunks dest_path (Complete c) = fs_op (write_file dest_path c)"
| "write_chunks dest_path (Broken written text) =
     bind (fs_op (write_file dest_path written)) (\<lambda>u. raise (ChunkedEncodingError text))"

subsection \<open>download_file (lines 15-38)\<close>

definition download_file :: "env \<Rightarrow> string \<Rightarrow> path \<Rightarrow> unit prog" where
  "download_file env url dest_path =
     try_except
       (bind (print (MsgDownloading url)) (\<lambda>u.
        bind (requests_get env url) (\<lambda>(status, reason, from, len, b).
        bind (raise_for_status status reason from) (\<lambda>u.
        bind (lift (total_size len)) (\<lambda>total.
        bind (write_chunks dest_path b) (\<lambda>u.
        print (MsgDownloadComplete dest_path)))))))
       (\<lambda>e. if is_RequestException e
            then reraise_after (MsgDownloadFailed e) e
            else reraise_after (MsgDownloadUnexpected e) e)"

subsection \<open>is_valid_zip (lines 40-49)\<close>

text \<open>\<^verbatim>\<open>zipfile.ZipFile(file_path, "r")\<close>: the members of the archive.\<close>

definition zipfile_open :: "path \<Rightarrow> node \<Rightarrow> error + (path \<times> entry) list" where
  "zipfile_open file_path t =
     (case read_file file_path t of
        Inl e \<Rightarrow> Inl e
      | Inr c \<Rightarrow>
          (case as_zip c of
             None \<Rightarrow> Inl (BadZipFile ''File is not a zip file'')
           | Some members \<Rightarrow> Inr members))"

definition is_valid_zip :: "path \<Rightarrow> bool prog" where
  "is_valid_zip file_path =
     try_except
       (bind (fs_read (zipfile_open file_path)) (\<lambda>zip_ref. return True))
       (\<lambda>e. if is_BadZipFile e then return False
            else bind (print (MsgValidateUnexpected e)) (\<lambda>u. return False))"

subsection \<open>extract_zip (lines 51-66)\<close>

text \<open>
  \<^verbatim>\<open>ZipFile.extract(member, folder)\<close>: the directories above the target are created when
  missing; a directory entry is created unless it is there; for a file the entry is
  opened, then the target is opened for writing and the data copied, so that an entry
  whose data cannot be read leaves the bytes copied before, often an empty file.
\<close>

definition zip_extract :: "path \<Rightarrow> path \<times> entry \<Rightarrow> unit prog" where
  "zip_extract extract_folder member =
     (let targetpath = extract_folder @ fst member; upperdirs = butlast targetpath in
      bind (path_exists upperdirs) (\<lambda>ex.
      bind (if \<not> ex then fs_op (makedirs upperdirs) else return ()) (\<lambda>u.
        case snd member of
          EDir \<Rightarrow>
            bind (fs_read (\<lambda>t. Inr (stat t targetpath = IsDir))) (\<lambda>isdir.
              if \<not> isdir then fs_op (mkdir targetpath) else return ())
        | EFile c \<Rightarrow> fs_op (write_file targetpath c)
        | ECorrupt copied text \<Rightarrow>
            bind (case copied of None \<Rightarrow> return () | Some c \<Rightarrow> fs_op (write_file targetpath c)) (\<lambda>u.
              raise (BadZipFile text)))))"

definition extract_zip :: "path \<Rightarrow> path \<Rightarrow> unit prog" where
  "extract_zip zip_path extract_folder =
     try_except
       (bind (print (MsgValidating zip_path)) (\<lambda>u.
        bind (is_valid_zip zip_path) (\<lambda>valid.
        bind (if \<not> valid
              then raise (BadZipFile (''The file '' @ path_text zip_path @ '' is not a valid ZIP archive.''))
              else return ()) (\<lambda>u.
        bind (print (MsgExtracting zip_path extract_folder)) (\<lambda>u.
        bind (fs_read (zipfile_open zip_path)) (\<lambda>namelist.
        bind (block (map (zip_extract extract_folder) namelist)) (\<lambda>u.
        print (MsgExtractionComplete extract_folder))))))))
       (\<lambda>e. if is_BadZipFile e
            then reraise_after (MsgNotValidZip zip_path) e
            else reraise_after (MsgExtractUnexpected e) e)"

subsection \<open>move_jar_files (lines 68-83)\<close>

text \<open>\<^verbatim>\<open>str.endswith\<close>.\<close>

definition endswith :: "string \<Rightarrow> string \<Rightarrow> bool" where
  "endswith s suf = (length suf \<le> length s \<and> drop (length s - length suf) s = suf)"

definition move_jar_files :: "path \<Rightarrow> path \<Rightarrow> unit prog" where
  "move_jar_files source_folder destination_folder =
     try_except
       (bind (print (MsgSearching source_folder)) (\<lambda>u.
        bind (path_exists source_folder) (\<lambda>ex.
        bind (if \<not> ex
              then raise (FileNotFoundError (''Source folder does not exist: '' @ path_text source_folder))
              else return ()) (\<lambda>u.
        bind (fs_read (listdir source_folder)) (\<lambda>files.
          let jar_files = filter (\<lambda>file. endswith file ''.jar'') files in
          if jar_files = [] then print MsgNoJarFiles
          else
            bind (fs_op (makedirs destination_folder)) (\<lambda>u.
            bind (block (map (\<lambda>jar_file. fs_op (shutil_move (source_folder @ [jar_file]) destination_folder))
                             jar_files)) (\<lambda>u.
            print (MsgAllMoved destination_folder))))))))
       (\<lambda>e. reraise_after (MsgMoveUnexpected e) e)"

subsection \<open>main (lines 111-160)\<close>

definition modpack_zip_url :: string where
  "modpack_zip_url = ''https://next.buettner.tech/s/2e3Y7r6MTCeTCRL/download/mods.zip''"

definition addons_zip_url :: string where
  "addons_zip_url = ''https://next.buettner.tech/s/pdXPP5TJepyw6SZ/download/addons.zip''"

definition base_path :: "env \<Rightarrow> path" where
  "base_path env = home_dir env @ [''AppData'', ''Roaming'', ''.minecraft'', ''labymod-neo'']"

definition modpack_path :: "env \<Rightarrow> path" where
  "modpack_path env = base_path env @ [''modpacks'', ''christmas2024'', ''fabric'', ''1.21.1'', ''mods'']"

definition addons_path :: "env \<Rightarrow> path" where
  "addons_path env = base_path env @ [''modpacks'', ''christmas2024'', ''addons'']"

definition modpacks_file :: "env \<Rightarrow> path" where
  "modpacks_file env = base_path env @ [''modpacks'', ''modpacks.json'']"

definition modpack_key :: string where
  "modpack_key = ''christmas2024''"

definition modpack_name :: string where
  "modpack_name = ''Christmas 2024''"

definition mod_loader :: string where
  "mod_loader = ''fabric''"

definition version :: string where
  "version = ''1.21.1''"

text \<open>\<^verbatim>\<open>tempfile.mkdtemp()\<close>: creates the directory and returns its path.\<close>

definition mkdtemp :: "env \<Rightarrow> path prog" where
  "mkdtemp env =
     bind (emit (MkDtemp (fresh_tmp env))) (\<lambda>u.
     bind (fs_op (mkdir (fresh_tmp env))) (\<lambda>u.
     return (fresh_tmp env)))"

text \<open>\<^verbatim>\<open>if not is_valid_zip(p): raise zipfile.BadZipFile(...)\<close> (lines 135-136, 144-145).\<close>

definition require_valid_zip :: "path \<Rightarrow> unit prog" where
  "require_valid_zip zip_path =
     bind (is_valid_zip zip_path) (\<lambda>valid.
       if \<not> valid
       then raise (BadZipFile (''The downloaded file '' @ path_text zip_path @ '' is not a valid ZIP archive.''))
       else return ())"

text \<open>Lines 133-149: the statements of the \<^verbatim>\<open>try\<close> block before the manifest update.\<close>

definition install_stages :: "env \<Rightarrow> path \<Rightarrow> unit prog list" where
  "install_stages env temp_dir =
     [download_file env modpack_zip_url (temp_dir @ [''modpack.zip'']),
      require_valid_zip (temp_dir @ [''modpack.zip'']),
      fs_op (makedirs (temp_dir @ [''modpack''])),
      extract_zip (temp_dir @ [''modpack.zip'']) (temp_dir @ [''modpack'']),
      move_jar_files (temp_dir @ [''modpack'']) (modpack_path env),
      download_file env addons_zip_url (temp_dir @ [''addons.zip'']),
      require_valid_zip (temp_dir @ [''addons.zip'']),
      fs_op (makedirs (temp_dir @ [''addons''])),
      extract_zip (temp_dir @ [''addons.zip'']) (temp_dir @ [''addons'']),
      move_jar_files (temp_dir @ [''addons'']) (addons_path env)]"

text \<open>Lines 151-152: the manifest update and the message of success.\<close>

definition register_stages :: "env \<Rightarrow> unit prog list" where
  "register_stages env =
     [update_modpacks_json (modpacks_file env) modpack_key modpack_name mod_loader version,
      print MsgCompleted]"

text \<open>Lines 155-158: the \<^verbatim>\<open>finally\<close> block.\<close>

definition cleanup :: "path \<Rightarrow> unit prog" where
  "cleanup temp_dir =
     bind (path_exists temp_dir) (\<lambda>ex.
       if ex then block [fs_op (rmtree temp_dir), print (MsgCleanedUp temp_dir)]
       else return ())"

text \<open>
  The message of line 131 is printed after \<^verbatim>\<open>mkdtemp\<close> and before the \<^verbatim>\<open>try\<close> of line
  132, outside the reach of its \<^verbatim>\<open>finally\<close>.
\<close>

definition main :: "env \<Rightarrow> unit prog" where
  "main env =
     bind (path_exists (base_path env)) (\<lambda>ex.
       if \<not> ex then block [print MsgNotInstalled, emit Input]
       else
         bind (mkdtemp env) (\<lambda>temp_dir.
         bind (print (MsgUsingTemp temp_dir)) (\<lambda>u.
         bind (try_finally
                 (try_except
                    (block (install_stages env temp_dir @ register_stages env))
                    (\<lambda>e. print (MsgFatal e)))
                 (cleanup temp_dir)) (\<lambda>u.
         emit Input))))"

subsection \<open>Invariants of the file system\<close>

text \<open>
  A file-system operation keeps a property when its result has it whenever its argument
  had; a program preserves it when the world it leaves has it whenever the world it
  started in had, whatever the outcome.
\<close>

definition keeps :: "(node \<Rightarrow> bool) \<Rightarrow> (node \<Rightarrow> error + node) \<Rightarrow> bool" where
  "keeps Q g \<longleftrightarrow> (\<forall>t t'. Q t \<longrightarrow> g t = Inr t' \<longrightarrow> Q t')"

definition preserves :: "(node \<Rightarrow> bool) \<Rightarrow> 'a prog \<Rightarrow> bool" where
  "preserves Q m \<longleftrightarrow> (\<forall>w. Q (fs w) \<longrightarrow> Q (fs (snd (m w))))"

subsection \<open>Example worlds\<close>

text \<open>
  A manifest \<^verbatim>\<open>modpacks/modpacks.json\<close>, the directory that holds it with given entries,
  and the document the installer's own entry makes of the default document.
\<close>

definition example_manifest :: path where
  "example_manifest = [''modpacks'', ''modpacks.json'']"

definition manifest_dir :: "(string \<times> node) list \<Rightarrow> world" where
  "manifest_dir es = \<lparr>fs = Dir [(''modpacks'', Dir es)], trace = []\<rparr>"

definition christmas_document :: json where
  "christmas_document =
     JObj [(''packs'', JObj [(''christmas2024'',
       JObj [(''name'', JStr ''Christmas 2024''), (''version'', JStr ''1.21.1''),
             (''modLoader'', JStr ''fabric'')])])]"

text \<open>A document whose entry for the key was written by someone else.\<close>

definition foreign_document :: json where
  "foreign_document = JObj [(''packs'', JObj [(''christmas2024'', JObj [(''name'', JStr ''Old'')])])]"

text \<open>
  A machine with the application installed under the home directory and a directory for
  temporary files, and the environment of a run there over a given network.
\<close>

definition installed_machine :: "(string \<times> node) list \<Rightarrow> node" where
  "installed_machine es =
     Dir [(''home'', Dir [(''AppData'', Dir [(''Roaming'', Dir [(''.minecraft'',
            Dir [(''labymod-neo'', Dir es)])])])]),
          (''tmp'', Dir [])]"

definition example_env :: "(string \<Rightarrow> response) \<Rightarrow> env" where
  "example_env net = \<lparr>home_dir = [''home''], http = net, fresh_tmp = [''tmp'', ''tmp1'']\<rparr>"

text \<open>Bytes that are neither JSON nor an archive, and an archive with given members.\<close>

definition junk :: content where
  "junk = Content JSONDecodeError None"

definition archive :: "(path \<times> entry) list \<Rightarrow> content" where
  "archive members = Content Undecodable (Some members)"

text \<open>
  A server that answers every request with status 404, one that answers with a given
  status and a body, and a network that is down.
\<close>

definition not_found :: "string \<Rightarrow> response" where
  "not_found url = Response 404 ''Not Found'' url NoLength (Complete junk)"

definition answers :: "nat \<Rightarrow> string \<Rightarrow> body \<Rightarrow> string \<Rightarrow> response" where
  "answers status reason b url = Response status reason url NoLength b"

definition offline :: "string \<Rightarrow> response" where
  "offline url = Unreachable ''Failed to establish a new connection: [Errno 111] Connection refused''"

section \<open>Properties\<close>

subsection \<open>The console\<close>

lemmas prog_defs = bind_def return_def raise_def try_except_def try_finally_def emit_def
  lift_def fs_read_def fs_op_def path_exists_def

lemma printable_print [simp]: "printable m \<Longrightarrow> print m = emit (Print m)"
  by (simp add: print_def printable_def)

lemma outcome_of_print:
  "print m w = (Inr (), w\<lparr>trace := trace w @ [Print m]\<rparr>) \<or> (\<exists>text. print m w = (Inl (MarkupError text), w))"
  by (cases "markup_error (message_text m)") (simp_all add: print_def emit_def raise_def)

lemma fs_after_print [simp]: "fs (snd (print m w)) = fs w"
  using outcome_of_print [of m w] by auto

lemma printable_fixed [simp]:
  "printable MsgNoJarFiles" "printable MsgUpdating" "printable MsgCorrupted" "printable MsgUpdated"
  "printable MsgNotInstalled" "printable MsgCompleted"
  "printable (MsgUpdateUnexpected (KeyError ''packs''))" "printable (MsgUpdateUnexpected TypeError)"
  "printable (MsgUpdateUnexpected UnicodeDecodeError)"
  by code_simp+

subsection \<open>The file system\<close>

lemma located_Inr [simp]: "located p r = Inr x \<longleftrightarrow> r = Inr x"
  by (cases r) (simp_all add: located_def)

lemma located_Inl [simp]: "located p (Inl k) = Inl (os_error k p)"
  by (simp add: located_def)

lemma located_value [simp]: "located p (Inr x) = Inr x"
  by (simp add: located_def)

lemma write_file_alter:
  "write_file p c t = Inr t' \<longleftrightarrow>
     alter (\<lambda>old. case old of Some (Dir es) \<Rightarrow> Inl EISDIR | _ \<Rightarrow> Inr (Some (File c))) p t = Inr t'"
  by (simp add: write_file_def)

lemma mkdir_alter:
  "mkdir p t = Inr t' \<longleftrightarrow>
     alter (\<lambda>old. case old of None \<Rightarrow> Inr (Some (Dir [])) | Some n \<Rightarrow> Inl EEXIST) p t = Inr t'"
  by (simp add: mkdir_def)

lemma rmtree_alter:
  "rmtree p t = Inr t' \<longleftrightarrow>
     alter (\<lambda>old. case old of None \<Rightarrow> Inl ENOENT | Some (File c) \<Rightarrow> Inl ENOTDIR | Some (Dir es) \<Rightarrow> Inr None) p t = Inr t'"
  by (simp add: rmtree_def)

lemma makedirs_Inr: "makedirs p t = Inr t' \<longleftrightarrow> mkdirs p t = Inr t'"
  by (auto simp: makedirs_def split: sum.splits prod.splits)

lemma alter_at: "alter f p t = Inr t' \<Longrightarrow> f (lookup t p) = Inr (lookup t' p)"
  by (induction f p t arbitrary: t' rule: alter.induct)
     (auto split: sum.splits option.splits if_splits simp: update_conv' delete_conv')


lemma alter_ok:
  "p \<noteq> [] \<Longrightarrow> lookup t (butlast p) = Some (Dir es) \<Longrightarrow> f (lookup t p) = Inr r
     \<Longrightarrow> \<exists>t'. alter f p t = Inr t'"
proof (induction p arbitrary: t es)
  case Nil
  then show ?case by simp
next
  case (Cons x xs)
  show ?case
  proof (cases "xs = []")
    case True
    from Cons.prems True have t: "t = Dir es" by simp
    with True Cons.prems have "f (map_of es x) = Inr r"
      by (cases "map_of es x") auto
    with t True show ?thesis by (cases r) simp_all
  next
    case False
    from Cons.prems False obtain ds m where t: "t = Dir ds" and m: "map_of ds x = Some m"
      by (cases t) (auto split: option.splits)
    with Cons.prems False have "lookup m (butlast xs) = Some (Dir es)" "f (lookup m xs) = Inr r"
      by auto
    with Cons.IH [OF False] obtain m' where "alter f xs m = Inr m'"
      by blast
    with t m False show ?thesis by simp
  qed
qed





lemma lookup_append:
  "lookup t (p @ r) = (case lookup t p of None \<Rightarrow> None | Some n \<Rightarrow> lookup n r)"
  by (induction t p rule: lookup.induct) (auto split: option.splits)

lemma lookup_prefix_exists:
  "lookup t q = Some m \<Longrightarrow> prefix p q \<Longrightarrow> lookup t p \<noteq> None"
  by (auto simp: prefix_def lookup_append split: option.splits)

lemma lookup_below_file: "lookup t p = Some (File c) \<Longrightarrow> r \<noteq> [] \<Longrightarrow> lookup t (p @ r) = None"
  by (cases r) (auto simp: lookup_append)

lemma lookup_snoc:
  "lookup t (p @ [x]) = Some m \<longleftrightarrow> (\<exists>es. lookup t p = Some (Dir es) \<and> map_of es x = Some m)"
proof (cases "lookup t p")
  case None
  then show ?thesis by (simp add: lookup_append)
next
  case (Some n)
  then show ?thesis by (cases n) (auto simp: lookup_append split: option.splits)
qed

lemma stat_simps:
  "stat t p = Absent \<longleftrightarrow> lookup t p = None"
  "stat t p = IsDir \<longleftrightarrow> (\<exists>es. lookup t p = Some (Dir es))"
  "stat t p = IsFile c \<longleftrightarrow> lookup t p = Some (File c)"
  by (auto simp: stat_def split: option.splits node.splits)

lemma stat_Cons:
  "stat (Dir es) (x # xs) = (case map_of es x of None \<Rightarrow> Absent | Some m \<Rightarrow> stat m xs)"
  "stat (File c) (x # xs) = Absent"
  "stat (Dir es) [] = IsDir"
  "stat (File c) [] = IsFile c"
  by (auto simp: stat_def split: option.splits)

lemma alter_Cons_Inr:
  assumes "alter f (x # xs) t = Inr t'"
  shows "\<exists>es. t = Dir es \<and>
    (xs = [] \<longrightarrow> (\<exists>r. f (map_of es x) = Inr r \<and>
        t' = Dir (case r of None \<Rightarrow> AList.delete x es | Some m \<Rightarrow> AList.update x m es))) \<and>
    (xs \<noteq> [] \<longrightarrow> (\<exists>m m'. map_of es x = Some m \<and> alter f xs m = Inr m' \<and>
        t' = Dir (AList.update x m' es)))"
  using assms by (cases t) (auto split: if_splits sum.splits option.splits)

lemma alter_lookup_frame:
  "alter f p t = Inr t' \<Longrightarrow> \<not> prefix p q \<Longrightarrow> \<not> prefix q p \<Longrightarrow> lookup t' q = lookup t q"
proof (induction p arbitrary: t t' q)
  case Nil
  then show ?case by simp
next
  case (Cons x xs)
  from Cons.prems obtain y ys where q: "q = y # ys" by (cases q) auto
  from alter_Cons_Inr [OF Cons.prems(1)] obtain es where t: "t = Dir es"
    and leaf: "xs = [] \<Longrightarrow> (\<exists>r. f (map_of es x) = Inr r \<and>
        t' = Dir (case r of None \<Rightarrow> AList.delete x es | Some m \<Rightarrow> AList.update x m es))"
    and deep: "xs \<noteq> [] \<Longrightarrow> (\<exists>m m'. map_of es x = Some m \<and> alter f xs m = Inr m' \<and>
        t' = Dir (AList.update x m' es))"
    by blast
  show ?case
  proof (cases "y = x")
    case False
    show ?thesis
    proof (cases "xs = []")
      case True
      from leaf [OF True] False t q show ?thesis
        by (auto simp: update_conv' delete_conv' split: option.splits)
    next
      case ne: False
      from deep [OF ne] False t q show ?thesis
        by (auto simp: update_conv' split: option.splits)
    qed
  next
    case True
    with Cons.prems q have rel: "\<not> prefix xs ys" "\<not> prefix ys xs" by auto
    then have "xs \<noteq> []" by auto
    from deep [OF this] obtain m m' where m: "map_of es x = Some m" "alter f xs m = Inr m'"
      "t' = Dir (AList.update x m' es)" by blast
    from Cons.IH [OF m(2) rel] have "lookup m' ys = lookup m ys" .
    with m t q True show ?thesis
      by (simp add: update_conv')
  qed
qed

lemma alter_stat_frame:
  "alter f p t = Inr t' \<Longrightarrow> \<not> prefix p q \<Longrightarrow> stat t' q = stat t q"
proof (induction p arbitrary: t t' q)
  case Nil
  then show ?case by simp
next
  case (Cons x xs)
  from alter_Cons_Inr [OF Cons.prems(1)] obtain es where t: "t = Dir es"
    and leaf: "xs = [] \<Longrightarrow> (\<exists>r. f (map_of es x) = Inr r \<and>
        t' = Dir (case r of None \<Rightarrow> AList.delete x es | Some m \<Rightarrow> AList.update x m es))"
    and deep: "xs \<noteq> [] \<Longrightarrow> (\<exists>m m'. map_of es x = Some m \<and> alter f xs m = Inr m' \<and>
        t' = Dir (AList.update x m' es))"
    by blast
  have dir: "\<exists>es'. t' = Dir es'"
    using leaf deep by (cases "xs = []") auto
  show ?case
  proof (cases q)
    case Nil
    with t dir show ?thesis by (auto simp: stat_Cons)
  next
    case q: (Cons y ys)
    show ?thesis
    proof (cases "y = x")
      case False
      show ?thesis
      proof (cases "xs = []")
        case True
        from leaf [OF True] False t q show ?thesis
          by (auto simp: stat_Cons update_conv' delete_conv' split: option.splits)
      next
        case ne: False
        from deep [OF ne] False t q show ?thesis
          by (auto simp: stat_Cons update_conv' split: option.splits)
      qed
    next
      case True
      with Cons.prems q have rel: "\<not> prefix xs ys" by auto
      then have "xs \<noteq> []" by auto
      from deep [OF this] obtain m m' where m: "map_of es x = Some m" "alter f xs m = Inr m'"
        "t' = Dir (AList.update x m' es)" by blast
      from Cons.IH [OF m(2) rel] have "stat m' ys = stat m ys" .
      with m t q True show ?thesis
        by (simp add: stat_Cons update_conv')
    qed
  qed
qed

lemma mkdirs_Cons_Inr:
  assumes "mkdirs (x # xs) t = Inr t'"
  shows "\<exists>es m'. t = Dir es \<and>
     mkdirs xs (case map_of es x of None \<Rightarrow> Dir [] | Some m \<Rightarrow> m) = Inr m' \<and>
     t' = Dir (AList.update x m' es)"
  using assms by (cases t) (auto split: sum.splits prod.splits)

lemma mkdirs_Nil_Inr: "mkdirs [] t = Inr t' \<Longrightarrow> t' = t \<and> (\<exists>es. t = Dir es)"
  by (cases t) auto

lemma mkdirs_lookup_frame:
  "mkdirs p t = Inr t' \<Longrightarrow> \<not> prefix q p \<Longrightarrow> lookup t' q = lookup t q"
proof (induction p arbitrary: t t' q)
  case Nil
  then show ?case by (auto dest: mkdirs_Nil_Inr)
next
  case (Cons x xs)
  from mkdirs_Cons_Inr [OF Cons.prems(1)] obtain es m' where t: "t = Dir es"
    and m': "mkdirs xs (case map_of es x of None \<Rightarrow> Dir [] | Some m \<Rightarrow> m) = Inr m'"
    and t': "t' = Dir (AList.update x m' es)"
    by blast
  from Cons.prems obtain y ys where q: "q = y # ys" by (cases q) auto
  show ?case
  proof (cases "y = x")
    case False
    with t t' q show ?thesis by (simp add: update_conv')
  next
    case True
    with Cons.prems q have rel: "\<not> prefix ys xs" by simp
    then obtain z zs where ys: "ys = z # zs" by (cases ys) auto
    from Cons.IH [OF m' rel]
    have "lookup m' ys = lookup (case map_of es x of None \<Rightarrow> Dir [] | Some m \<Rightarrow> m) ys" .
    with t t' q True ys show ?thesis
      by (auto simp: update_conv' split: option.splits)
  qed
qed

lemma mkdirs_is_dir:
  "mkdirs p t = Inr t' \<Longrightarrow> prefix q p \<Longrightarrow> stat t' q = IsDir"
proof (induction p arbitrary: t t' q)
  case Nil
  then show ?case by (auto dest: mkdirs_Nil_Inr simp: stat_Cons)
next
  case (Cons x xs)
  from mkdirs_Cons_Inr [OF Cons.prems(1)] obtain es m' where t: "t = Dir es"
    and m': "mkdirs xs (case map_of es x of None \<Rightarrow> Dir [] | Some m \<Rightarrow> m) = Inr m'"
    and t': "t' = Dir (AList.update x m' es)"
    by blast
  show ?case
  proof (cases q)
    case Nil
    with t' show ?thesis by (simp add: stat_Cons)
  next
    case (Cons y ys)
    with Cons.prems have "y = x" "prefix ys xs" by auto
    with Cons.IH [OF m'] t' Cons show ?thesis
      by (simp add: stat_Cons update_conv')
  qed
qed

lemma mkdirs_not_file:
  "mkdirs p t = Inr t' \<Longrightarrow> prefix q p \<Longrightarrow> stat t q = Absent \<or> stat t q = IsDir"
proof (induction p arbitrary: t t' q)
  case Nil
  then show ?case by (auto dest: mkdirs_Nil_Inr simp: stat_Cons)
next
  case (Cons x xs)
  from mkdirs_Cons_Inr [OF Cons.prems(1)] obtain es m' where t: "t = Dir es"
    and m': "mkdirs xs (case map_of es x of None \<Rightarrow> Dir [] | Some m \<Rightarrow> m) = Inr m'"
    and t': "t' = Dir (AList.update x m' es)"
    by blast
  show ?case
  proof (cases q)
    case Nil
    with t show ?thesis by (simp add: stat_Cons)
  next
    case (Cons y ys)
    with Cons.prems have "y = x" "prefix ys xs" by auto
    with Cons.IH [OF m', of ys] t Cons show ?thesis
      by (auto simp: stat_Cons split: option.splits)
  qed
qed

lemma mkdirs_keeps:
  assumes "mkdirs p t = Inr t'" and "stat t q \<noteq> Absent"
  shows "stat t' q = stat t q"
proof (cases "prefix q p")
  case True
  with assms mkdirs_is_dir [OF assms(1) True] mkdirs_not_file [OF assms(1) True]
  show ?thesis by simp
next
  case False
  with mkdirs_lookup_frame [OF assms(1) False] show ?thesis
    by (simp add: stat_def)
qed

lemma mkdirs_ok:
  "(\<forall>q c. prefix q p \<longrightarrow> lookup t q \<noteq> Some (File c)) \<Longrightarrow> \<exists>t'. mkdirs p t = Inr t'"
proof (induction p arbitrary: t)
  case Nil
  then show ?case by (cases t) auto
next
  case (Cons x xs)
  from Cons.prems [rule_format, of "[]"] obtain es where t: "t = Dir es"
    by (cases t) auto
  let ?m = "case map_of es x of None \<Rightarrow> Dir [] | Some m \<Rightarrow> m"
  have "\<forall>q c. prefix q xs \<longrightarrow> lookup ?m q \<noteq> Some (File c)"
  proof (intro allI impI)
    fix q c assume q: "prefix q xs"
    with Cons.prems [rule_format, of "x # q" c] t
    show "lookup ?m q \<noteq> Some (File c)"
      by (cases q) (auto split: option.splits)
  qed
  from Cons.IH [OF this] t show ?case
    by auto
qed

lemma makedirs_lookup_frame:
  "makedirs p t = Inr t' \<Longrightarrow> \<not> prefix q p \<Longrightarrow> lookup t' q = lookup t q"
  unfolding makedirs_Inr by (rule mkdirs_lookup_frame)

lemma makedirs_is_dir:
  "makedirs p t = Inr t' \<Longrightarrow> prefix q p \<Longrightarrow> stat t' q = IsDir"
  unfolding makedirs_Inr by (rule mkdirs_is_dir)

lemma makedirs_keeps:
  "makedirs p t = Inr t' \<Longrightarrow> stat t q \<noteq> Absent \<Longrightarrow> stat t' q = stat t q"
  unfolding makedirs_Inr by (rule mkdirs_keeps)

lemma makedirs_ok:
  "(\<forall>q c. prefix q p \<longrightarrow> lookup t q \<noteq> Some (File c)) \<Longrightarrow> \<exists>t'. makedirs p t = Inr t'"
  unfolding makedirs_Inr by (rule mkdirs_ok)

lemma lookup_None_stat: "lookup t p = None \<longleftrightarrow> stat t p = Absent"
  by (simp add: stat_simps)

lemma shutil_move_into_dir:
  assumes dst: "stat t dst = IsDir"
    and nsub: "\<not> prefix (src @ [n]) dst"
    and sd: "\<not> prefix (src @ [n]) (dst @ [n])"
    and ds: "\<not> prefix (dst @ [n]) (src @ [n])"
    and free: "lookup t (dst @ [n]) = None"
    and there: "lookup t (src @ [n]) = Some m"
  shows "\<exists>t'. shutil_move (src @ [n]) dst t = Inr t' \<and>
           lookup t' (dst @ [n]) = Some m \<and> lookup t' (src @ [n]) = None \<and>
           (\<forall>q. \<not> prefix (src @ [n]) q \<and> \<not> prefix (dst @ [n]) q \<longrightarrow> stat t' q = stat t q) \<and>
           (\<forall>q. \<not> prefix (src @ [n]) q \<and> \<not> prefix q (src @ [n]) \<and>
                \<not> prefix (dst @ [n]) q \<and> \<not> prefix q (dst @ [n]) \<longrightarrow> lookup t' q = lookup t q)"
proof -
  let ?take = "\<lambda>old :: node option. Inr None :: oserr + node option"
  let ?place = "\<lambda>old. case old of None \<Rightarrow> Inr (Some m) | Some k \<Rightarrow> Inl EEXIST"
  from there obtain es where "lookup t src = Some (Dir es)"
    by (auto simp: lookup_snoc)
  then have "\<exists>ta. alter ?take (src @ [n]) t = Inr ta"
    by (intro alter_ok [where es = es and r = None]) simp_all
  then obtain ta where ta: "alter ?take (src @ [n]) t = Inr ta" ..
  from alter_at [OF ta] have gone: "lookup ta (src @ [n]) = None"
    by simp
  from alter_stat_frame [OF ta nsub] dst obtain ds where dsta: "lookup ta dst = Some (Dir ds)"
    by (auto simp: stat_simps)
  from alter_stat_frame [OF ta sd] free have free': "lookup ta (dst @ [n]) = None"
    by (simp add: lookup_None_stat)
  from dsta free' have "\<exists>t'. alter ?place (dst @ [n]) ta = Inr t'"
    by (intro alter_ok [where es = ds and r = "Some m"]) simp_all
  then obtain t' where t': "alter ?place (dst @ [n]) ta = Inr t'" ..
  from alter_at [OF t'] free' have here: "lookup t' (dst @ [n]) = Some m"
    by simp
  from alter_stat_frame [OF t' ds] gone have gone': "lookup t' (src @ [n]) = None"
    by (simp add: lookup_None_stat)
  have neq: "src @ [n] \<noteq> dst"
    using nsub by auto
  from dst obtain ds0 where "lookup t dst = Some (Dir ds0)"
    by (auto simp: stat_simps)
  with neq nsub sd free there ta t' have run: "shutil_move (src @ [n]) dst t = Inr t'"
    by (simp add: shutil_move_def rename_def)
  have statf: "stat t' q = stat t q" if "\<not> prefix (src @ [n]) q" "\<not> prefix (dst @ [n]) q" for q
    using alter_stat_frame [OF t' that(2)] alter_stat_frame [OF ta that(1)] by simp
  have lookf: "lookup t' q = lookup t q"
    if "\<not> prefix (src @ [n]) q" "\<not> prefix q (src @ [n])" "\<not> prefix (dst @ [n]) q" "\<not> prefix q (dst @ [n])" for q
    using alter_lookup_frame [OF t' that(3,4)] alter_lookup_frame [OF ta that(1,2)] by simp
  from run here gone' statf lookf show ?thesis
    by blast
qed

lemma block_fs_op_Cons:
  "block (fs_op g # ss) (w\<lparr>fs := t\<rparr>) =
     (case g t of Inl e \<Rightarrow> (Inl e, w\<lparr>fs := t\<rparr>) | Inr t' \<Rightarrow> block ss (w\<lparr>fs := t'\<rparr>))"
  by (simp add: prog_defs split: sum.splits)

lemma move_loop:
  assumes "distinct js"
    and "\<forall>a\<in>set js. \<forall>b\<in>set js. \<not> prefix (src @ [a]) (dst @ [b]) \<and> \<not> prefix (dst @ [a]) (src @ [b])"
    and "\<forall>n\<in>set js. \<not> prefix (src @ [n]) dst"
    and "stat t dst = IsDir"
    and "\<forall>n\<in>set js. lookup t (dst @ [n]) = None"
    and "\<forall>n\<in>set js. lookup t (src @ [n]) \<noteq> None"
  shows "\<exists>t'. block (map (\<lambda>j. fs_op (shutil_move (src @ [j]) dst)) js) (w\<lparr>fs := t\<rparr>) = (Inr (), w\<lparr>fs := t'\<rparr>) \<and>
      (\<forall>n\<in>set js. lookup t' (dst @ [n]) = lookup t (src @ [n]) \<and> lookup t' (src @ [n]) = None) \<and>
      (\<forall>q. (\<forall>n\<in>set js. \<not> prefix (src @ [n]) q \<and> \<not> prefix (dst @ [n]) q) \<longrightarrow> stat t' q = stat t q) \<and>
      (\<forall>q. (\<forall>n\<in>set js. \<not> prefix (src @ [n]) q \<and> \<not> prefix q (src @ [n]) \<and>
                        \<not> prefix (dst @ [n]) q \<and> \<not> prefix q (dst @ [n])) \<longrightarrow> lookup t' q = lookup t q)"
  using assms
proof (induction js arbitrary: t)
  case Nil
  show ?case by (auto simp: prog_defs intro!: exI [of _ t])
next
  case (Cons j js)
  from Cons.prems obtain m where m: "lookup t (src @ [j]) = Some m"
    by auto
  from Cons.prems have jfacts: "\<not> prefix (src @ [j]) dst" "\<not> prefix (src @ [j]) (dst @ [j])"
      "\<not> prefix (dst @ [j]) (src @ [j])" "lookup t (dst @ [j]) = None"
    by simp_all
  from shutil_move_into_dir [OF Cons.prems(4) jfacts m]
  obtain t1 where run1: "shutil_move (src @ [j]) dst t = Inr t1"
    and here1: "lookup t1 (dst @ [j]) = Some m" and gone1: "lookup t1 (src @ [j]) = None"
    and stat1: "\<And>q. \<not> prefix (src @ [j]) q \<Longrightarrow> \<not> prefix (dst @ [j]) q \<Longrightarrow> stat t1 q = stat t q"
    and look1: "\<And>q. \<not> prefix (src @ [j]) q \<Longrightarrow> \<not> prefix q (src @ [j]) \<Longrightarrow>
                  \<not> prefix (dst @ [j]) q \<Longrightarrow> \<not> prefix q (dst @ [j]) \<Longrightarrow> lookup t1 q = lookup t q"
    by blast
  have sep: "\<not> prefix (src @ [a]) (dst @ [b])" "\<not> prefix (dst @ [a]) (src @ [b])"
    if "a \<in> set (j # js)" "b \<in> set (j # js)" for a b
    using Cons.prems(2) that by blast+
  have ne: "n \<noteq> j" if "n \<in> set js" for n
    using Cons.prems(1) that by auto
  have sib: "\<not> prefix (p @ [a]) (p @ [b])" if "a \<noteq> b" for p :: path and a b
    using that by simp
  have d1: "stat t1 dst = IsDir"
    using stat1 [of dst] jfacts(1) Cons.prems(4) by simp
  have f1: "\<forall>n\<in>set js. lookup t1 (dst @ [n]) = None"
  proof
    fix n assume n: "n \<in> set js"
    from stat1 [of "dst @ [n]"] sep(1) [of j n] n ne [OF n] sib [of j n dst] Cons.prems(5)
    show "lookup t1 (dst @ [n]) = None"
      by (simp add: lookup_None_stat)
  qed
  have same1: "lookup t1 (src @ [n]) = lookup t (src @ [n])" if n: "n \<in> set js" for n
    using look1 [of "src @ [n]"] sep(2) [of j n] sep(1) [of n j] n ne [OF n]
      sib [of j n src] sib [of n j src] by simp
  with Cons.prems(6) have e1: "\<forall>n\<in>set js. lookup t1 (src @ [n]) \<noteq> None"
    by simp
  from Cons.prems have "distinct js"
    "\<forall>a\<in>set js. \<forall>b\<in>set js. \<not> prefix (src @ [a]) (dst @ [b]) \<and> \<not> prefix (dst @ [a]) (src @ [b])"
    "\<forall>n\<in>set js. \<not> prefix (src @ [n]) dst"
    by simp_all
  from Cons.IH [OF this d1 f1 e1]
  obtain t' where run: "block (map (\<lambda>j. fs_op (shutil_move (src @ [j]) dst)) js) (w\<lparr>fs := t1\<rparr>) = (Inr (), w\<lparr>fs := t'\<rparr>)"
    and moved: "\<And>n. n \<in> set js \<Longrightarrow> lookup t' (dst @ [n]) = lookup t1 (src @ [n]) \<and> lookup t' (src @ [n]) = None"
    and stat2: "\<And>q. (\<forall>n\<in>set js. \<not> prefix (src @ [n]) q \<and> \<not> prefix (dst @ [n]) q) \<Longrightarrow> stat t' q = stat t1 q"
    and look2: "\<And>q. (\<forall>n\<in>set js. \<not> prefix (src @ [n]) q \<and> \<not> prefix q (src @ [n]) \<and>
                        \<not> prefix (dst @ [n]) q \<and> \<not> prefix q (dst @ [n])) \<Longrightarrow> lookup t' q = lookup t1 q"
    by blast
  have run': "block (map (\<lambda>j. fs_op (shutil_move (src @ [j]) dst)) (j # js)) (w\<lparr>fs := t\<rparr>) = (Inr (), w\<lparr>fs := t'\<rparr>)"
    using run run1 by (simp add: block_fs_op_Cons del: block.simps)
  have "lookup t' (dst @ [j]) = lookup t1 (dst @ [j])"
  proof (rule look2, intro ballI conjI)
    fix n assume n: "n \<in> set js"
    show "\<not> prefix (src @ [n]) (dst @ [j])" using sep(1) [of n j] n by simp
    show "\<not> prefix (dst @ [j]) (src @ [n])" using sep(2) [of j n] n by simp
    show "\<not> prefix (dst @ [n]) (dst @ [j])" using ne [OF n] by simp
    show "\<not> prefix (dst @ [j]) (dst @ [n])" using ne [OF n] by simp
  qed
  with here1 m have mj: "lookup t' (dst @ [j]) = lookup t (src @ [j])"
    by simp
  have "stat t' (src @ [j]) = stat t1 (src @ [j])"
  proof (rule stat2, intro ballI conjI)
    fix n assume n: "n \<in> set js"
    show "\<not> prefix (src @ [n]) (src @ [j])" using ne [OF n] by simp
    show "\<not> prefix (dst @ [n]) (src @ [j])" using sep(2) [of n j] n by simp
  qed
  with gone1 have gj: "lookup t' (src @ [j]) = None"
    by (simp add: lookup_None_stat)
  have all: "\<forall>n\<in>set (j # js). lookup t' (dst @ [n]) = lookup t (src @ [n]) \<and> lookup t' (src @ [n]) = None"
    using mj gj moved same1 by auto
  have statf: "\<forall>q. (\<forall>n\<in>set (j # js). \<not> prefix (src @ [n]) q \<and> \<not> prefix (dst @ [n]) q) \<longrightarrow> stat t' q = stat t q"
    using stat1 stat2 by simp
  have lookf: "\<forall>q. (\<forall>n\<in>set (j # js). \<not> prefix (src @ [n]) q \<and> \<not> prefix q (src @ [n]) \<and>
                        \<not> prefix (dst @ [n]) q \<and> \<not> prefix q (dst @ [n])) \<longrightarrow> lookup t' q = lookup t q"
    using look1 look2 by simp
  from run' all statf lookf show ?case
    by blast
qed

lemma stat_eq_lookup: "lookup t' q = lookup t q \<Longrightarrow> stat t' q = stat t q"
  by (simp add: stat_def)

lemma lookup_child: "lookup t p = Some (Dir es) \<Longrightarrow> lookup t (p @ [x]) = map_of es x"
  by (simp add: lookup_append split: option.splits)

lemmas move_defs = move_jar_files_def listdir_def shutil_move_def rename_def endswith_def Let_def prog_defs

subsection \<open>The manifest updater\<close>

lemma reraise_after_shown:
  "printable m \<Longrightarrow> reraise_after m e w = (Inl e, w\<lparr>trace := trace w @ [Print m]\<rparr>)"
  by (simp add: reraise_after_def prog_defs)

lemma reraise_after_outcome:
  "reraise_after m e w = (Inl e, w\<lparr>trace := trace w @ [Print m]\<rparr>) \<or>
   (\<exists>text. reraise_after m e w = (Inl (MarkupError text), w))"
  using outcome_of_print [of m w] by (auto simp: reraise_after_def prog_defs)

lemma reraise_after_result:
  "(\<exists>e'. fst (reraise_after m e w) = Inl e') \<and> fs (snd (reraise_after m e w)) = fs w"
  using reraise_after_outcome [of m e w] by (elim disjE exE) simp_all


lemma fs_after_reraise [simp]: "fs (snd (reraise_after m e w)) = fs w"
  using reraise_after_result [of m e w] by simp






lemma load_modpacks_cases:
  "load_modpacks f w =
     (case lookup (fs w) f of
        None \<Rightarrow> (Inr default_document, w)
      | Some (Dir es) \<Rightarrow> (Inl (os_error EISDIR f), w)
      | Some (File c) \<Rightarrow>
          (case as_json c of
             Loads j \<Rightarrow> (Inr j, w)
           | JSONDecodeError \<Rightarrow> (Inr default_document, w\<lparr>trace := trace w @ [Print MsgCorrupted]\<rparr>)
           | Undecodable \<Rightarrow> (Inl UnicodeDecodeError, w)))"
  unfolding load_modpacks_def prog_defs read_file_def
  by (auto simp: emit_def located_def split: option.splits node.splits load_result.splits)



lemma update_modpacks_json_cases:
  "update_modpacks_json f k n l v w =
     (case load_modpacks f (w\<lparr>trace := trace w @ [Print MsgUpdating]\<rparr>) of
        (Inl e, w1) \<Rightarrow> reraise_after (MsgUpdateUnexpected e) e w1
      | (Inr d, w1) \<Rightarrow>
          (case insert_pack d k n l v of
             Inl e \<Rightarrow> reraise_after (MsgUpdateUnexpected e) e w1
           | Inr (d', msg) \<Rightarrow>
               (case print msg w1 of
                  (Inl e, w2) \<Rightarrow> reraise_after (MsgUpdateUnexpected e) e w2
                | (Inr u, w2) \<Rightarrow>
                    (case write_file f (json_text d') (fs w2) of
                       Inl e \<Rightarrow> reraise_after (MsgUpdateUnexpected e) e w2
                     | Inr t \<Rightarrow>
                         (Inr (), w2\<lparr>fs := t, trace := trace w2 @ [JsonDump f d' 4, Print MsgUpdated]\<rparr>)))))"
  unfolding update_modpacks_json_def dump_modpacks_def prog_defs
  by (auto simp: emit_def split: sum.splits prod.splits)

lemma outcomes_of_print:
  obtains (shown) "printable m" "\<And>w. print m w = (Inr (), w\<lparr>trace := trace w @ [Print m]\<rparr>)"
    | (raised) why where "\<not> printable m" "\<And>w. print m w = (Inl (MarkupError why), w)"
  by (cases "markup_error (message_text m)") (auto simp: print_def printable_def emit_def raise_def)




lemmas example_defs = example_manifest_def manifest_dir_def christmas_document_def
  foreign_document_def modpack_key_def modpack_name_def mod_loader_def version_def
  installed_machine_def example_env_def junk_def archive_def not_found_def answers_def offline_def

lemma printable_example [simp]:
  "printable (MsgAdded ''Christmas 2024'')" "printable (MsgAlreadyExists ''Christmas 2024'')"
  "printable (MsgAdded modpack_name)" "printable (MsgAlreadyExists modpack_name)"
  by code_simp+










text \<open>
  C10. When the manifest file holds valid JSON that is not an object with a "packs" key,
  the subscript \<^verbatim>\<open>modpacks_data["packs"]\<close> of line 95 raises (\<^verbatim>\<open>KeyError\<close> for an
  object, \<^verbatim>\<open>TypeError\<close> otherwise); the handler reports it and raises it again, and the
  file system is left as it was: no default document replaces the file.
\<close>

theorem update_modpacks_json_without_packs:
  assumes "lookup (fs w) f = Some (File c)" and "as_json c = Loads d"
    and "\<forall>kvs. d = JObj kvs \<longrightarrow> map_of kvs ''packs'' = None"
  shows "\<exists>e. py_getitem d ''packs'' = Inl e \<and> (e = KeyError ''packs'' \<or> e = TypeError) \<and>
           update_modpacks_json f k n l v w =
             (Inl e, w\<lparr>trace := trace w @ [Print MsgUpdating, Print (MsgUpdateUnexpected e)]\<rparr>)"
  using assms
  by (cases d)
     (auto simp: update_modpacks_json_cases load_modpacks_cases insert_pack_def reraise_after_shown)

theorem update_modpacks_json_without_packs_witness:
  "update_modpacks_json example_manifest modpack_key modpack_name mod_loader version
       (manifest_dir [(''modpacks.json'', File (json_text (JObj [])))]) =
     (Inl (KeyError ''packs''),
      \<lparr>fs = fs (manifest_dir [(''modpacks.json'', File (json_text (JObj [])))]),
       trace = [Print MsgUpdating, Print (MsgUpdateUnexpected (KeyError ''packs''))]\<rparr>) \<and>
   update_modpacks_json example_manifest modpack_key modpack_name mod_loader version
       (manifest_dir [(''modpacks.json'', File (json_text (JArr [])))]) =
     (Inl TypeError,
      \<lparr>fs = fs (manifest_dir [(''modpacks.json'', File (json_text (JArr [])))]),
       trace = [Print MsgUpdating, Print (MsgUpdateUnexpected TypeError)]\<rparr>)"
proof -
  have f1: "lookup (fs (manifest_dir [(''modpacks.json'', File (json_text (JObj [])))])) example_manifest
      = Some (File (json_text (JObj [])))"
    by (simp add: example_defs)
  have f2: "lookup (fs (manifest_dir [(''modpacks.json'', File (json_text (JArr [])))])) example_manifest
      = Some (File (json_text (JArr [])))"
    by (simp add: example_defs)
  have j: "\<And>d. as_json (json_text d) = Loads d"
    by (simp add: json_text_def)
  have s1: "\<forall>kvs. JObj [] = JObj kvs \<longrightarrow> map_of kvs ''packs'' = None"
    by simp
  have s2: "\<forall>kvs. JArr [] = JObj kvs \<longrightarrow> map_of kvs ''packs'' = None"
    by simp
  from update_modpacks_json_without_packs [OF f1 j s1, of modpack_key modpack_name mod_loader version]
       update_modpacks_json_without_packs [OF f2 j s2, of modpack_key modpack_name mod_loader version]
  show ?thesis
    by (auto simp: example_defs)
qed

text \<open>
  The handler of line 93 catches \<^verbatim>\<open>JSONDecodeError\<close> only: a manifest whose bytes are not
  UTF-8 makes the read inside \<^verbatim>\<open>json.load\<close> raise \<^verbatim>\<open>UnicodeDecodeError\<close>, which the
  outer handler reports and raises again; the file is left as it was.
\<close>

lemma update_modpacks_json_undecodable:
  assumes "lookup (fs w) f = Some (File c)" and "as_json c = Undecodable"
  shows "update_modpacks_json f k n l v w =
           (Inl UnicodeDecodeError,
            w\<lparr>trace := trace w @ [Print MsgUpdating, Print (MsgUpdateUnexpected UnicodeDecodeError)]\<rparr>)"
  using assms by (simp add: update_modpacks_json_cases load_modpacks_cases reraise_after_shown)

subsection \<open>The other stages and the orchestrator\<close>


text \<open>
  C5. When the base directory of the application does not exist, \<^verbatim>\<open>main\<close> prints the
  message, waits for the key and returns: the file system is unchanged, so no temporary
  directory was created, and the trace gains these two events only, so \<^verbatim>\<open>mkdtemp\<close>
  was not called and no HTTP request was made.
\<close>

theorem main_without_installation:
  assumes "lookup (fs w) (base_path env) = None"
  shows "main env w = (Inr (), w\<lparr>trace := trace w @ [Print MsgNotInstalled, Input]\<rparr>)"
  using assms by (simp add: main_def prog_defs)

theorem main_without_installation_witness:
  "main (example_env not_found) \<lparr>fs = Dir [(''tmp'', Dir [])], trace = []\<rparr> =
     (Inr (), \<lparr>fs = Dir [(''tmp'', Dir [])], trace = [Print MsgNotInstalled, Input]\<rparr>)"
proof -
  have "lookup (fs \<lparr>fs = Dir [(''tmp'', Dir [])], trace = []\<rparr>) (base_path (example_env not_found)) = None"
    by (simp add: base_path_def example_defs)
  from main_without_installation [OF this] show ?thesis
    by simp
qed

text \<open>
  What \<^verbatim>\<open>is_valid_zip\<close> does, for every path and world: True for a file that
  \<^verbatim>\<open>zipfile.ZipFile\<close> opens as an archive, False for \<^verbatim>\<open>BadZipFile\<close>; any other
  exception (a missing file, a path through a file, a directory) is reported, and the
  call returns False when the console shows the report. The file system is left as it was.
\<close>

lemma is_valid_zip_outcome:
  "is_valid_zip p w =
     (case zipfile_open p (fs w) of
        Inr members \<Rightarrow> (Inr True, w)
      | Inl e \<Rightarrow>
          if is_BadZipFile e then (Inr False, w)
          else (case markup_error (message_text (MsgValidateUnexpected e)) of
                  None \<Rightarrow> (Inr False, w\<lparr>trace := trace w @ [Print (MsgValidateUnexpected e)]\<rparr>)
                | Some why \<Rightarrow> (Inl (MarkupError why), w)))"
  by (auto simp: is_valid_zip_def print_def prog_defs split: sum.splits option.splits)

lemma zipfile_open_cases:
  "zipfile_open p t =
     (case lookup t p of
        None \<Rightarrow> Inl (os_error (absent_errno t p) p)
      | Some (Dir es) \<Rightarrow> Inl (os_error EISDIR p)
      | Some (File c) \<Rightarrow>
          (case as_zip c of None \<Rightarrow> Inl (BadZipFile ''File is not a zip file'') | Some members \<Rightarrow> Inr members))"
  by (auto simp: zipfile_open_def read_file_def located_def split: option.splits node.splits)

lemma is_valid_zip_returns:
  assumes "lookup (fs w) p = None \<longrightarrow> printable (MsgValidateUnexpected (os_error (absent_errno (fs w) p) p))"
    and "(\<exists>es. lookup (fs w) p = Some (Dir es)) \<longrightarrow> printable (MsgValidateUnexpected (os_error EISDIR p))"
  shows "is_valid_zip p w =
     (Inr (\<exists>c ms. lookup (fs w) p = Some (File c) \<and> as_zip c = Some ms),
      w\<lparr>trace := trace w @
           (case lookup (fs w) p of
              None \<Rightarrow> [Print (MsgValidateUnexpected (os_error (absent_errno (fs w) p) p))]
            | Some (Dir es) \<Rightarrow> [Print (MsgValidateUnexpected (os_error EISDIR p))]
            | Some (File c) \<Rightarrow> [])\<rparr>)"
proof (cases "lookup (fs w) p")
  case None
  with assms(1) show ?thesis
    by (cases "absent_errno (fs w) p")
       (simp_all add: is_valid_zip_outcome zipfile_open_cases printable_def)
next
  case (Some m)
  with assms(2) show ?thesis
    by (cases m) (auto simp: is_valid_zip_outcome zipfile_open_cases printable_def split: option.splits)
qed

text \<open>
  C6 fails on the code: the handler of line 47 prints the text of the exception, which
  holds the path, as markup. For a missing file whose name holds a closing tag the print
  raises \<^verbatim>\<open>MarkupError\<close> inside the handler, and \<^verbatim>\<open>is_valid_zip\<close> propagates it instead of
  returning False.
\<close>

theorem is_valid_zip_propagates:
  "is_valid_zip [''t[/x].zip''] \<lparr>fs = Dir [], trace = []\<rparr> =
     (Inl (MarkupError (''closing tag '' @ quoted ''[/x]'' @ '' at position 89 doesn'' @ [CHR 0x27] @
                        ''t match any open tag'')),
      \<lparr>fs = Dir [], trace = []\<rparr>)"
  by code_simp





text \<open>
  When the source directory does not exist and the console shows the search message and
  the report, \<^verbatim>\<open>move_jar_files\<close> raises the \<^verbatim>\<open>FileNotFoundError\<close> of line 72 to its
  caller and changes nothing.
\<close>

lemma move_jar_files_missing_source:
  assumes "lookup (fs w) src = None"
    and "printable (MsgSearching src)"
    and "printable (MsgMoveUnexpected (FileNotFoundError (''Source folder does not exist: '' @ path_text src)))"
  shows "move_jar_files src dst w =
           (Inl (FileNotFoundError (''Source folder does not exist: '' @ path_text src)),
            w\<lparr>trace := trace w @
                 [Print (MsgSearching src),
                  Print (MsgMoveUnexpected
                    (FileNotFoundError (''Source folder does not exist: '' @ path_text src)))]\<rparr>)"
  using assms by (simp add: move_jar_files_def reraise_after_def prog_defs)

text \<open>
  C9 fails on the code: line 70 prints the source path as markup before the test of line
  71. For an absent source whose name holds a closing tag the print raises
  \<^verbatim>\<open>MarkupError\<close>; the handler of line 81, printing the text of that error, raises it
  anew, and the caller gets \<^verbatim>\<open>MarkupError\<close> where the claim says
  \<^verbatim>\<open>FileNotFoundError\<close>. Nothing is printed.
\<close>

theorem move_jar_files_missing_source_markup:
  "lookup (Dir []) [''t[/x]''] = None \<and>
   move_jar_files [''t[/x]''] [''mods''] \<lparr>fs = Dir [], trace = []\<rparr> =
     (Inl (MarkupError (''closing tag '' @ quoted ''[/x]'' @ '' at position 59 doesn'' @ [CHR 0x27] @
                        ''t match any open tag'')),
      \<lparr>fs = Dir [], trace = []\<rparr>)"
  by code_simp

subsection \<open>The relocator\<close>

text \<open>
  What \<^verbatim>\<open>move_jar_files\<close> does on a first run. For a source that is a directory, with
  \<open>jars\<close> the names in it that end in \<^verbatim>\<open>.jar\<close>, and a console that shows the messages:
  when there is none, \<^verbatim>\<open>move_jar_files\<close> prints the warning and returns, and nothing is
  changed or created. When there are some, and it is sufficient for this that the
  destination is not the source or inside it, that no path at or above the destination is
  a file, and that the destination holds no entry with one of these names, the call
  returns normally; the
  destination is then a directory, every entry named in \<open>jars\<close> is at the destination with
  all it held and is gone from the source, every entry of the source with another name
  is where and what it was (so nothing below a subdirectory was moved), and no path
  outside the moved entries and the directories created has changed its kind or content.
\<close>

lemma move_jar_files_moves_jars:
  assumes src: "lookup (fs w) src = Some (Dir es)"
    and jars: "jars = filter (\<lambda>file. endswith file ''.jar'') (remdups (map fst es))"
    and shown: "printable (MsgSearching src)"
  shows
   "(jars = [] \<longrightarrow>
       move_jar_files src dst w =
         (Inr (), w\<lparr>trace := trace w @ [Print (MsgSearching src), Print MsgNoJarFiles]\<rparr>)) \<and>
    (jars \<noteq> [] \<and> printable (MsgAllMoved dst) \<and> \<not> prefix src dst \<and>
     (\<forall>q c. prefix q dst \<longrightarrow> lookup (fs w) q \<noteq> Some (File c)) \<and>
     (\<forall>n\<in>set jars. lookup (fs w) (dst @ [n]) = None) \<longrightarrow>
       (\<exists>t'. move_jar_files src dst w =
            (Inr (), w\<lparr>fs := t', trace := trace w @ [Print (MsgSearching src), Print (MsgAllMoved dst)]\<rparr>) \<and>
          stat t' dst = IsDir \<and>
          (\<forall>n\<in>set jars. lookup t' (dst @ [n]) = lookup (fs w) (src @ [n]) \<and> lookup t' (src @ [n]) = None) \<and>
          (\<forall>m. \<not> endswith m ''.jar'' \<longrightarrow> lookup t' (src @ [m]) = lookup (fs w) (src @ [m])) \<and>
          (\<forall>q. \<not> prefix q dst \<and> (\<forall>n\<in>set jars. \<not> prefix (src @ [n]) q \<and> \<not> prefix (dst @ [n]) q) \<longrightarrow>
               stat t' q = stat (fs w) q)))"
proof (intro conjI impI)
  assume "jars = []"
  with src jars shown show "move_jar_files src dst w =
         (Inr (), w\<lparr>trace := trace w @ [Print (MsgSearching src), Print MsgNoJarFiles]\<rparr>)"
    by (simp add: move_jar_files_def listdir_def prog_defs)
next
  assume a: "jars \<noteq> [] \<and> printable (MsgAllMoved dst) \<and> \<not> prefix src dst \<and>
     (\<forall>q c. prefix q dst \<longrightarrow> lookup (fs w) q \<noteq> Some (File c)) \<and>
     (\<forall>n\<in>set jars. lookup (fs w) (dst @ [n]) = None)"
  then have ne: "jars \<noteq> []" and moved_shown: "printable (MsgAllMoved dst)" and out: "\<not> prefix src dst"
    and free: "\<And>n. n \<in> set jars \<Longrightarrow> lookup (fs w) (dst @ [n]) = None"
    by simp_all
  from a makedirs_ok [of dst "fs w"] obtain t1 where t1: "makedirs dst (fs w) = Inr t1"
    by blast
  have isjar: "endswith n ''.jar''" and child: "map_of es n \<noteq> None" if "n \<in> set jars" for n
    using that jars by (auto simp: map_of_eq_None_iff)
  have nsub: "\<not> prefix (src @ [a]) dst" for a
    using out by (meson prefix_order.trans prefixI)
  have sd: "\<not> prefix (src @ [a]) (dst @ [b])" for a b
    using out nsub [of a] by auto
  have ds: "\<not> prefix (dst @ [a]) (src @ [b])" if "a \<in> set jars" for a b
  proof
    assume "prefix (dst @ [a]) (src @ [b])"
    then have "dst @ [a] = src @ [b] \<or> prefix (dst @ [a]) src"
      by simp
    then show False
    proof
      assume "dst @ [a] = src @ [b]"
      with out show False by simp
    next
      assume "prefix (dst @ [a]) src"
      with lookup_prefix_exists [OF src this] free [OF that] show False by simp
    qed
  qed
  have keep: "lookup t1 q = lookup (fs w) q" if "\<not> prefix q dst" for q
    using makedirs_lookup_frame [OF t1 that] .
  have d1: "stat t1 dst = IsDir"
    using makedirs_is_dir [OF t1] by simp
  have f1: "\<forall>n\<in>set jars. lookup t1 (dst @ [n]) = None"
    using keep free by simp
  have same: "lookup t1 (src @ [n]) = lookup (fs w) (src @ [n])" for n
    using keep nsub by simp
  have e1: "\<forall>n\<in>set jars. lookup t1 (src @ [n]) \<noteq> None"
    using same child lookup_child [OF src] by simp
  have dj: "distinct jars"
    using jars by simp
  have sep: "\<forall>a\<in>set jars. \<forall>b\<in>set jars. \<not> prefix (src @ [a]) (dst @ [b]) \<and> \<not> prefix (dst @ [a]) (src @ [b])"
    using sd ds by simp
  have ns: "\<forall>n\<in>set jars. \<not> prefix (src @ [n]) dst"
    using nsub by simp
  let ?w1 = "w\<lparr>trace := trace w @ [Print (MsgSearching src)]\<rparr>"
  from move_loop [OF dj sep ns d1 f1 e1, of ?w1]
  obtain t' where run: "block (map (\<lambda>j. fs_op (shutil_move (src @ [j]) dst)) jars) (?w1\<lparr>fs := t1\<rparr>) = (Inr (), ?w1\<lparr>fs := t'\<rparr>)"
    and moved: "\<And>n. n \<in> set jars \<Longrightarrow> lookup t' (dst @ [n]) = lookup t1 (src @ [n]) \<and> lookup t' (src @ [n]) = None"
    and statf: "\<And>q. (\<forall>n\<in>set jars. \<not> prefix (src @ [n]) q \<and> \<not> prefix (dst @ [n]) q) \<Longrightarrow> stat t' q = stat t1 q"
    and lookf: "\<And>q. (\<forall>n\<in>set jars. \<not> prefix (src @ [n]) q \<and> \<not> prefix q (src @ [n]) \<and>
                        \<not> prefix (dst @ [n]) q \<and> \<not> prefix q (dst @ [n])) \<Longrightarrow> lookup t' q = lookup t1 q"
    by blast
  have whole: "move_jar_files src dst w =
      (Inr (), w\<lparr>fs := t', trace := trace w @ [Print (MsgSearching src), Print (MsgAllMoved dst)]\<rparr>)"
    using src jars [symmetric] ne t1 run shown moved_shown
    by (simp add: move_jar_files_def listdir_def prog_defs Let_def)
  have dir: "stat t' dst = IsDir"
    using statf [of dst] nsub d1 by simp
  have mv: "\<forall>n\<in>set jars. lookup t' (dst @ [n]) = lookup (fs w) (src @ [n]) \<and> lookup t' (src @ [n]) = None"
    using moved same by simp
  have others: "lookup t' (src @ [m]) = lookup (fs w) (src @ [m])" if m: "\<not> endswith m ''.jar''" for m
  proof -
    have "lookup t' (src @ [m]) = lookup t1 (src @ [m])"
    proof (rule lookf, intro ballI conjI)
      fix n assume n: "n \<in> set jars"
      with isjar m have "n \<noteq> m" by auto
      then show "\<not> prefix (src @ [n]) (src @ [m])" "\<not> prefix (src @ [m]) (src @ [n])" by simp_all
      show "\<not> prefix (dst @ [n]) (src @ [m])" using ds [OF n] .
      show "\<not> prefix (src @ [m]) (dst @ [n])" using sd .
    qed
    with same show ?thesis by simp
  qed
  have frame: "\<forall>q. \<not> prefix q dst \<and> (\<forall>n\<in>set jars. \<not> prefix (src @ [n]) q \<and> \<not> prefix (dst @ [n]) q) \<longrightarrow>
               stat t' q = stat (fs w) q"
    using statf keep by (auto intro: stat_eq_lookup)
  from whole dir mv others frame
  show "\<exists>t'. move_jar_files src dst w =
            (Inr (), w\<lparr>fs := t', trace := trace w @ [Print (MsgSearching src), Print (MsgAllMoved dst)]\<rparr>) \<and>
          stat t' dst = IsDir \<and>
          (\<forall>n\<in>set jars. lookup t' (dst @ [n]) = lookup (fs w) (src @ [n]) \<and> lookup t' (src @ [n]) = None) \<and>
          (\<forall>m. \<not> endswith m ''.jar'' \<longrightarrow> lookup t' (src @ [m]) = lookup (fs w) (src @ [m])) \<and>
          (\<forall>q. \<not> prefix q dst \<and> (\<forall>n\<in>set jars. \<not> prefix (src @ [n]) q \<and> \<not> prefix (dst @ [n]) q) \<longrightarrow>
               stat t' q = stat (fs w) q)"
    by blast
qed

text \<open>
  C4 fails on the code when the installer is run a second time: the destination then holds
  the \<^verbatim>\<open>.jar\<close> files of the first run, \<^verbatim>\<open>shutil.move\<close> into a directory raises
  \<^verbatim>\<open>shutil.Error\<close> (destination path already exists) for the first name that is taken,
  the handler reports and raises it again, and the file stays in the source while the
  destination keeps the file it had.
\<close>

theorem move_jar_files_name_taken:
  "move_jar_files [''tmp'', ''modpack''] [''mods'']
       \<lparr>fs = Dir [(''tmp'', Dir [(''modpack'', Dir [(''foo.jar'', File (archive []))])]),
                  (''mods'', Dir [(''foo.jar'', File junk)])], trace = []\<rparr> =
     (Inl (ShutilError (''Destination path '' @ quoted ''/mods/foo.jar'' @ '' already exists'')),
      \<lparr>fs = Dir [(''tmp'', Dir [(''modpack'', Dir [(''foo.jar'', File (archive []))])]),
                 (''mods'', Dir [(''foo.jar'', File junk)])],
       trace = [Print (MsgSearching [''tmp'', ''modpack'']),
                Print (MsgMoveUnexpected
                  (ShutilError (''Destination path '' @ quoted ''/mods/foo.jar'' @ '' already exists'')))]\<rparr>)"
  by code_simp

subsection \<open>The orchestrator when a stage fails\<close>

lemma preserves_pure [intro!, simp]:
  "preserves Q (return x)" "preserves Q (raise e)" "preserves Q (emit ev)" "preserves Q (print msg)"
  "preserves Q (lift r)" "preserves Q (fs_read f)" "preserves Q (path_exists p)"
  "preserves Q (reraise_after msg e)"
  by (simp_all add: preserves_def prog_defs)

lemma preserves_bind [intro!]:
  assumes "preserves Q m" and "\<And>x. preserves Q (f x)"
  shows "preserves Q (bind m f)"
  using assms unfolding preserves_def bind_def
  by (auto split: prod.splits sum.splits)

lemma preserves_try_except [intro!]:
  assumes "preserves Q m" and "\<And>e. preserves Q (h e)"
  shows "preserves Q (try_except m h)"
  using assms unfolding preserves_def try_except_def
  by (auto split: prod.splits sum.splits)

lemma preserves_try_finally [intro!]:
  assumes "preserves Q m" and "preserves Q c"
  shows "preserves Q (try_finally m c)"
  using assms unfolding preserves_def try_finally_def
  by (auto split: prod.splits sum.splits)

lemma preserves_block [intro!]:
  assumes "\<And>s. s \<in> set ss \<Longrightarrow> preserves Q s"
  shows "preserves Q (block ss)"
  using assms by (induction ss) auto

lemma preserves_fs_op [intro!]: "keeps Q g \<Longrightarrow> preserves Q (fs_op g)"
  by (auto simp: preserves_def keeps_def fs_op_def split: sum.splits)

lemma preserves_if [intro!]:
  "preserves Q m \<Longrightarrow> preserves Q n \<Longrightarrow> preserves Q (if b then m else n)"
  by simp

lemma preservesD: "preserves Q m \<Longrightarrow> Q (fs w) \<Longrightarrow> m w = (r, w') \<Longrightarrow> Q (fs w')"
  by (auto simp: preserves_def)

lemma preserves_download_file:
  assumes "\<And>c. keeps Q (write_file dest c)"
  shows "preserves Q (download_file env url dest)"
proof -
  have "preserves Q (write_chunks dest b)" for b
    using assms by (cases b) auto
  then show ?thesis
    unfolding download_file_def requests_get_def raise_for_status_def
    by (auto split: response.splits)
qed

lemma preserves_is_valid_zip: "preserves Q (is_valid_zip p)"
  unfolding is_valid_zip_def by auto

lemma preserves_require_valid_zip: "preserves Q (require_valid_zip p)"
  unfolding require_valid_zip_def by (auto intro: preserves_is_valid_zip)

lemma preserves_zip_extract:
  assumes "\<And>p. prefix root p \<Longrightarrow> keeps Q (makedirs p)"
    and "\<And>p. prefix root p \<Longrightarrow> keeps Q (mkdir p)"
    and "\<And>p c. prefix root p \<Longrightarrow> keeps Q (write_file p c)"
  shows "preserves Q (zip_extract (root @ [x]) member)"
proof -
  have up: "prefix root (butlast ((root @ [x]) @ fst member))"
    by (cases "fst member" rule: rev_cases) (simp_all add: butlast_append)
  have tg: "prefix root ((root @ [x]) @ fst member)"
    by simp
  show ?thesis
    unfolding zip_extract_def Let_def
    using assms(1) [OF up] assms(2) [OF tg] assms(3) [OF tg]
    by (auto split: entry.splits option.splits)
qed

lemma preserves_extract_zip:
  assumes "\<And>p. prefix root p \<Longrightarrow> keeps Q (makedirs p)"
    and "\<And>p. prefix root p \<Longrightarrow> keeps Q (mkdir p)"
    and "\<And>p c. prefix root p \<Longrightarrow> keeps Q (write_file p c)"
  shows "preserves Q (extract_zip z (root @ [x]))"
  unfolding extract_zip_def
  using preserves_zip_extract [of root Q x, OF assms]
  by (auto intro: preserves_is_valid_zip)

lemma preserves_move_jar_files:
  assumes "keeps Q (makedirs dst)" and "\<And>n. keeps Q (shutil_move (src @ [n]) dst)"
  shows "preserves Q (move_jar_files src dst)"
  unfolding move_jar_files_def Let_def
  using assms by auto

lemma preserves_update_modpacks_json:
  assumes "\<And>c. keeps Q (write_file f c)"
  shows "preserves Q (update_modpacks_json f k n l v)"
proof -
  have "preserves Q (load_modpacks f)"
    unfolding load_modpacks_def by (auto split: load_result.splits)
  moreover have "preserves Q (dump_modpacks f d)" for d
    unfolding dump_modpacks_def using assms by auto
  ultimately show ?thesis
    unfolding update_modpacks_json_def by (auto split: prod.splits)
qed

lemma stat_above:
  assumes "stat t q \<noteq> Absent" and "prefix p q" and "p \<noteq> q"
  shows "stat t p = IsDir"
proof -
  from assms(2,3) obtain x xs where q: "q = p @ x # xs"
    by (auto simp: prefix_def) (metis neq_Nil_conv)
  show ?thesis
  proof (cases "lookup t p")
    case None
    with assms(1) q show ?thesis by (simp add: stat_def lookup_append)
  next
    case (Some n)
    with assms(1) q show ?thesis by (cases n) (simp_all add: stat_def lookup_append)
  qed
qed

lemma stat_prefix_dir:
  assumes "stat t q = IsDir" and "prefix p q"
  shows "stat t p = IsDir"
proof (cases "p = q")
  case True
  with assms show ?thesis by simp
next
  case False
  from assms(1) have "stat t q \<noteq> Absent" by simp
  from stat_above [OF this assms(2) False] show ?thesis .
qed

lemma write_file_keeps_dir: "keeps (\<lambda>t. stat t q = IsDir) (write_file p c)"
  unfolding keeps_def
proof (intro allI impI)
  fix t t' assume q: "stat t q = IsDir" and w: "write_file p c t = Inr t'"
  show "stat t' q = IsDir"
  proof (cases "prefix p q")
    case False
    with w q show ?thesis by (simp add: write_file_alter alter_stat_frame)
  next
    case True
    from stat_prefix_dir [OF q True] obtain es where "lookup t p = Some (Dir es)"
      by (auto simp: stat_simps)
    with alter_at [OF w [unfolded write_file_alter]] show ?thesis by simp
  qed
qed

lemma write_file_keeps_stat: "\<not> prefix p q \<Longrightarrow> keeps (\<lambda>t. stat t q = k) (write_file p c)"
  by (simp add: keeps_def write_file_alter alter_stat_frame)

lemma alter_create_keeps:
  assumes "\<And>n. \<exists>e. f (Some n) = Inl e" and "alter f p t = Inr t'" and "stat t q \<noteq> Absent"
  shows "stat t' q = stat t q"
proof (cases "prefix p q")
  case False
  with assms(2) show ?thesis by (rule alter_stat_frame)
next
  case True
  from assms(3) obtain m where "lookup t q = Some m"
    by (auto simp: stat_simps)
  from lookup_prefix_exists [OF this True] obtain n where "lookup t p = Some n"
    by auto
  with alter_at [OF assms(2)] assms(1) [of n] show ?thesis by auto
qed

lemma mkdir_stat:
  assumes "mkdir p t = Inr t'" and "\<not> prefix p q \<or> stat t q \<noteq> Absent"
  shows "stat t' q = stat t q"
  using assms(2)
proof
  assume "\<not> prefix p q"
  with assms(1) show ?thesis by (simp add: mkdir_alter alter_stat_frame)
next
  assume "stat t q \<noteq> Absent"
  with alter_create_keeps [OF _ assms(1) [unfolded mkdir_alter]] show ?thesis
    by (auto split: option.splits)
qed

lemma mkdir_keeps_stat: "\<not> prefix p q \<or> k \<noteq> Absent \<Longrightarrow> keeps (\<lambda>t. stat t q = k) (mkdir p)"
  unfolding keeps_def by (auto dest: mkdir_stat)

lemma makedirs_keeps_stat: "\<not> prefix q p \<or> k \<noteq> Absent \<Longrightarrow> keeps (\<lambda>t. stat t q = k) (makedirs p)"
  unfolding keeps_def
  by (auto simp: makedirs_keeps dest: makedirs_lookup_frame intro: stat_eq_lookup [THEN trans])

lemma rename_stat:
  assumes "rename s d t = Inr t'" and "\<not> prefix s q" and "\<not> prefix d q \<or> stat t q \<noteq> Absent"
  shows "stat t' q = stat t q"
proof -
  from assms(1) obtain n ta where ta: "alter (\<lambda>old. Inr None) s t = Inr ta"
    and t': "alter (\<lambda>old. case old of None \<Rightarrow> Inr (Some n) | Some m \<Rightarrow> Inl EEXIST) d ta = Inr t'"
    by (auto simp: rename_def split: option.splits if_splits sum.splits)
  from alter_stat_frame [OF ta assms(2)] have a: "stat ta q = stat t q" .
  from assms(3) show ?thesis
  proof
    assume "\<not> prefix d q"
    from alter_stat_frame [OF t' this] a show ?thesis by simp
  next
    assume "stat t q \<noteq> Absent"
    with a have "stat ta q \<noteq> Absent" by simp
    with alter_create_keeps [OF _ t'] a show ?thesis by (auto split: option.splits)
  qed
qed

lemma shutil_move_stat:
  assumes mv: "shutil_move s d t = Inr t'" and s: "\<not> prefix s q"
    and d: "\<not> prefix d q \<or> stat t q = IsDir"
  shows "stat t' q = stat t q"
proof (cases "lookup t d")
  case None
  with mv have "rename s d t = Inr t'"
    by (simp add: shutil_move_def)
  from rename_stat [OF this s] d show ?thesis by auto
next
  case (Some n)
  show ?thesis
  proof (cases n)
    case (Dir es)
    show ?thesis
    proof (cases "s = d")
      case True
      with mv Some Dir show ?thesis by (simp add: shutil_move_def)
    next
      case False
      with mv Some Dir have r: "rename s (d @ [last s]) t = Inr t'"
        by (simp add: shutil_move_def split: if_splits)
      from d have "\<not> prefix (d @ [last s]) q \<or> stat t q \<noteq> Absent"
        by (auto dest: append_prefixD)
      from rename_stat [OF r s this] show ?thesis .
    qed
  next
    case (File c)
    show ?thesis
    proof (cases "s = d")
      case True
      with mv Some File show ?thesis by (simp add: shutil_move_def)
    next
      case False
      with mv Some File obtain c' ta where w: "write_file d c' t = Inr ta"
        and tk: "alter (\<lambda>old. Inr None) s ta = Inr t'"
        by (auto simp: shutil_move_def split: option.splits node.splits sum.splits)
      from d have "stat ta q = stat t q"
      proof
        assume "\<not> prefix d q"
        with w show ?thesis by (simp add: write_file_alter alter_stat_frame)
      next
        assume "stat t q = IsDir"
        with write_file_keeps_dir [of q d c'] w show ?thesis by (simp add: keeps_def)
      qed
      with alter_stat_frame [OF tk s] show ?thesis by simp
    qed
  qed
qed

lemma shutil_move_keeps_dir: "\<not> prefix s q \<Longrightarrow> keeps (\<lambda>t. stat t q = IsDir) (shutil_move s d)"
  by (auto simp: keeps_def dest: shutil_move_stat)

lemma shutil_move_keeps_stat:
  "\<not> prefix s q \<Longrightarrow> \<not> prefix d q \<Longrightarrow> keeps (\<lambda>t. stat t q = k) (shutil_move s d)"
  by (auto simp: keeps_def dest: shutil_move_stat)

lemma stat_below_absent: "stat t p = Absent \<Longrightarrow> prefix p q \<Longrightarrow> stat t q = Absent"
  using lookup_prefix_exists [of t q _ p] by (cases "lookup t q") (auto simp: stat_simps)

lemma block_fail:
  "block pre w = (Inr (), wa) \<Longrightarrow> s wa = (Inl e, w1) \<Longrightarrow> block (pre @ s # rest) w = (Inl e, w1)"
  by (induction pre arbitrary: w) (auto simp: bind_def return_def split: prod.splits sum.splits)

lemma install_stages_keep_tmp:
  assumes "s \<in> set (install_stages env tmp @ register_stages env)"
  shows "preserves (\<lambda>t. stat t tmp = IsDir) s"
proof -
  let ?Q = "\<lambda>t. stat t tmp = IsDir"
  have w: "keeps ?Q (write_file p c)" for p c
    by (rule write_file_keeps_dir)
  have m: "keeps ?Q (makedirs p)" for p
    by (rule makedirs_keeps_stat) simp
  have k: "keeps ?Q (mkdir p)" for p
    by (rule mkdir_keeps_stat) simp
  have mv: "keeps ?Q (shutil_move ((tmp @ [x]) @ [n]) d)" for x n d
    by (rule shutil_move_keeps_dir) simp
  from assms show ?thesis
    unfolding install_stages_def register_stages_def
    by (auto intro!: preserves_download_file preserves_require_valid_zip preserves_extract_zip
          preserves_move_jar_files preserves_update_modpacks_json w m k mv)
qed

lemma install_stages_keep_manifest:
  assumes out: "\<not> prefix tmp (modpacks_file env)"
    and above: "prefix (modpacks_file env) tmp \<longrightarrow> k \<noteq> Absent"
    and s: "s \<in> set (install_stages env tmp)"
  shows "preserves (\<lambda>t. stat t (modpacks_file env) = k) s"
proof -
  let ?M = "modpacks_file env"
  let ?Q = "\<lambda>t. stat t ?M = k"
  have below: "\<not> prefix p ?M" if "prefix tmp p" for p
    using out that by (meson prefix_order.trans)
  have w: "keeps ?Q (write_file p c)" if "prefix tmp p" for p c
    using below [OF that] by (rule write_file_keeps_stat)
  have d: "keeps ?Q (mkdir p)" if "prefix tmp p" for p
    using below [OF that] by (intro mkdir_keeps_stat) simp
  have m: "keeps ?Q (makedirs p)" if "prefix tmp p" for p
  proof (rule makedirs_keeps_stat)
    show "\<not> prefix ?M p \<or> k \<noteq> Absent"
    proof (cases "prefix ?M p")
      case True
      with that have "prefix ?M tmp \<or> prefix tmp ?M"
        by (blast dest: prefix_same_cases)
      with out above show ?thesis by simp
    qed simp
  qed
  have mp: "\<not> prefix (modpack_path env) ?M" "\<not> prefix ?M (modpack_path env)"
    and ap: "\<not> prefix (addons_path env) ?M" "\<not> prefix ?M (addons_path env)"
    by (simp_all add: modpack_path_def addons_path_def modpacks_file_def)
  have m1: "keeps ?Q (makedirs (modpack_path env))" "keeps ?Q (makedirs (addons_path env))"
    using mp ap by (simp_all add: makedirs_keeps_stat)
  have mv: "keeps ?Q (shutil_move ((tmp @ [x]) @ [n]) (modpack_path env))"
     "keeps ?Q (shutil_move ((tmp @ [x]) @ [n]) (addons_path env))" for x n
    using mp ap below [of "(tmp @ [x]) @ [n]"] by (simp_all add: shutil_move_keeps_stat)
  have wt: "keeps ?Q (write_file (tmp @ [x]) c)" for x c
    by (rule w) simp
  have mt: "keeps ?Q (makedirs (tmp @ [x]))" for x
    by (rule m) simp
  from s show ?thesis
    unfolding install_stages_def
    by (auto intro!: preserves_download_file preserves_require_valid_zip preserves_extract_zip
          preserves_move_jar_files w m d m1 mv wt mt)
qed

lemma mkdtemp_facts:
  assumes "mkdtemp env w = (Inr tmp, w0)"
  shows "tmp = fresh_tmp env" "mkdir tmp (fs w) = Inr (fs w0)" "trace w0 = trace w @ [MkDtemp tmp]"
    "stat (fs w) tmp = Absent" "stat (fs w0) tmp = IsDir" "tmp \<noteq> []"
proof -
  from assms show a: "tmp = fresh_tmp env" and b: "mkdir tmp (fs w) = Inr (fs w0)"
    and "trace w0 = trace w @ [MkDtemp tmp]"
    by (auto simp: mkdtemp_def prog_defs split: sum.splits)
  from alter_at [OF b [unfolded mkdir_alter], symmetric]
  show "stat (fs w) tmp = Absent" "stat (fs w0) tmp = IsDir"
    by (cases "lookup (fs w) tmp"; simp add: stat_simps)+
  from b show "tmp \<noteq> []"
    by (auto simp: mkdir_alter)
qed

lemma rmtree_dir:
  assumes "stat t p = IsDir" and "p \<noteq> []"
  shows "\<exists>t'. rmtree p t = Inr t' \<and> stat t' p = Absent \<and> (\<forall>q. \<not> prefix p q \<longrightarrow> stat t' q = stat t q)"
proof -
  from assms(1) obtain es where es: "lookup t p = Some (Dir es)"
    by (auto simp: stat_simps)
  from assms(2) obtain xs x where p: "p = xs @ [x]"
    by (cases p rule: rev_cases) auto
  with es obtain ds where "lookup t (butlast p) = Some (Dir ds)"
    by (auto simp: lookup_snoc)
  with es assms(2) have "\<exists>t'. rmtree p t = Inr t'"
    unfolding rmtree_alter by (intro alter_ok [where r = None]) simp_all
  then obtain t' where t': "rmtree p t = Inr t'" ..
  from alter_at [OF t' [unfolded rmtree_alter]] es have "stat t' p = Absent"
    by (simp add: stat_simps)
  with t' alter_stat_frame [OF t' [unfolded rmtree_alter]] show ?thesis
    by blast
qed

lemma main_run:
  assumes inst: "lookup (fs w) (base_path env) \<noteq> None"
    and tmpok: "mkdtemp env w = (Inr tmp, w0)"
    and shown: "printable (MsgUsingTemp tmp)"
    and body: "block (install_stages env tmp @ register_stages env)
                 (w0\<lparr>trace := trace w0 @ [Print (MsgUsingTemp tmp)]\<rparr>) = (r, w1)"
  shows "\<exists>t evs. rmtree tmp (fs w1) = Inr t \<and> stat t tmp = Absent \<and>
            (\<forall>q. \<not> prefix tmp q \<longrightarrow> stat t q = stat (fs w1) q) \<and>
            fs (snd (main env w)) = t \<and> trace (snd (main env w)) = trace w1 @ evs \<and>
            set evs \<subseteq> {Print (MsgCleanedUp tmp), Input} \<union>
                       (case r of Inl e \<Rightarrow> {Print (MsgFatal e)} | Inr u \<Rightarrow> {})"
proof -
  note f = mkdtemp_facts [OF tmpok]
  have "preserves (\<lambda>t. stat t tmp = IsDir) (block (install_stages env tmp @ register_stages env))"
    by (intro preserves_block install_stages_keep_tmp)
  from preservesD [OF this _ body] f(5) have dir: "stat (fs w1) tmp = IsDir"
    by simp
  from rmtree_dir [OF dir f(6)] obtain t where t: "rmtree tmp (fs w1) = Inr t"
    and gone: "stat t tmp = Absent" and rest: "\<forall>q. \<not> prefix tmp q \<longrightarrow> stat t q = stat (fs w1) q"
    by blast
  from dir have ex: "lookup (fs w1) tmp \<noteq> None"
    by (auto simp: stat_simps)
  have "\<exists>evs. fs (snd (main env w)) = t \<and> trace (snd (main env w)) = trace w1 @ evs \<and>
            set evs \<subseteq> {Print (MsgCleanedUp tmp), Input} \<union>
                       (case r of Inl e \<Rightarrow> {Print (MsgFatal e)} | Inr u \<Rightarrow> {})"
  proof (cases "MsgCleanedUp tmp" rule: outcomes_of_print)
    case cleaned: shown
    show ?thesis
    proof (cases r)
      case (Inr u)
      with tmpok body t shown cleaned(1) show ?thesis
        by (intro exI [of _ "[Print (MsgCleanedUp tmp), Input]"])
           (simp add: main_def cleanup_def prog_defs inst ex)
    next
      case (Inl e)
      show ?thesis
      proof (cases "MsgFatal e" rule: outcomes_of_print)
        case fatal: shown
        with tmpok body t shown cleaned(1) Inl show ?thesis
          by (intro exI [of _ "[Print (MsgFatal e), Print (MsgCleanedUp tmp), Input]"])
             (simp add: main_def cleanup_def prog_defs inst ex)
      next
        case (raised why)
        with tmpok body t shown cleaned(1) Inl show ?thesis
          by (intro exI [of _ "[Print (MsgCleanedUp tmp)]"])
             (simp add: main_def cleanup_def prog_defs inst ex)
      qed
    qed
  next
    case unclean: (raised why)
    show ?thesis
    proof (cases r)
      case (Inr u)
      with tmpok body t shown unclean show ?thesis
        by (intro exI [of _ "[]"]) (simp add: main_def cleanup_def prog_defs inst ex)
    next
      case (Inl e)
      show ?thesis
      proof (cases "MsgFatal e" rule: outcomes_of_print)
        case fatal: shown
        with tmpok body t shown unclean Inl show ?thesis
          by (intro exI [of _ "[Print (MsgFatal e)]"])
             (simp add: main_def cleanup_def prog_defs inst ex)
      next
        case (raised why')
        with tmpok body t shown unclean Inl show ?thesis
          by (intro exI [of _ "[]"]) (simp add: main_def cleanup_def prog_defs inst ex)
      qed
    qed
  qed
  with t gone rest show ?thesis by blast
qed

text \<open>
  What \<^verbatim>\<open>main\<close> does once the message of line 131 is shown. In a run that passed the
  check of the base directory, created its temporary directory and printed its path, the
  temporary directory is gone at the end, on every path. When a stage before the manifest
  update raises, after the stages before it returned: the trace goes on from what the
  failing stage left with nothing but the fatal message, the clean-up message and the wait
  for the key, so no later stage ran; apart from the removal of the temporary directory
  the file system is as the failing stage left it; and the manifest path is what it was
  before the run, the same file with the same content or absent.
\<close>

lemma main_failure_leaves_manifest:
  assumes inst: "lookup (fs w) (base_path env) \<noteq> None"
    and tmpok: "mkdtemp env w = (Inr tmp, w0)"
    and shown: "printable (MsgUsingTemp tmp)"
  shows "stat (fs (snd (main env w))) tmp = Absent \<and>
     (\<forall>pre s post wa e w1.
        install_stages env tmp = pre @ s # post \<and>
        block pre (w0\<lparr>trace := trace w0 @ [Print (MsgUsingTemp tmp)]\<rparr>) = (Inr (), wa) \<and>
        s wa = (Inl e, w1) \<longrightarrow>
          (\<exists>evs. trace (snd (main env w)) = trace w1 @ evs \<and>
                 set evs \<subseteq> {Print (MsgFatal e), Print (MsgCleanedUp tmp), Input}) \<and>
          (\<forall>q. \<not> prefix tmp q \<longrightarrow> stat (fs (snd (main env w))) q = stat (fs w1) q) \<and>
          stat (fs (snd (main env w))) (modpacks_file env) = stat (fs w) (modpacks_file env))"
proof (intro conjI allI impI)
  let ?a = "w0\<lparr>trace := trace w0 @ [Print (MsgUsingTemp tmp)]\<rparr>"
  let ?M = "modpacks_file env"
  note f = mkdtemp_facts [OF tmpok]
  obtain r wb where body: "block (install_stages env tmp @ register_stages env) ?a = (r, wb)"
    by (cases "block (install_stages env tmp @ register_stages env) ?a")
  from main_run [OF inst tmpok shown body]
  show "stat (fs (snd (main env w))) tmp = Absent"
    by auto
  fix pre s post wa e w1
  assume a: "install_stages env tmp = pre @ s # post \<and> block pre ?a = (Inr (), wa) \<and> s wa = (Inl e, w1)"
  then have split: "install_stages env tmp = pre @ s # post"
    and pre: "block pre ?a = (Inr (), wa)" and s: "s wa = (Inl e, w1)"
    by simp_all
  from block_fail [of pre _ wa s e w1 "post @ register_stages env", OF pre s] split
  have fail: "block (install_stages env tmp @ register_stages env) ?a = (Inl e, w1)"
    by simp
  from main_run [OF inst tmpok shown fail] obtain t evs where gone: "stat t tmp = Absent"
    and rest: "\<And>q. \<not> prefix tmp q \<Longrightarrow> stat t q = stat (fs w1) q"
    and run: "fs (snd (main env w)) = t" "trace (snd (main env w)) = trace w1 @ evs"
      "set evs \<subseteq> {Print (MsgCleanedUp tmp), Input} \<union> {Print (MsgFatal e)}"
    by auto
  from run(2,3) show "\<exists>evs. trace (snd (main env w)) = trace w1 @ evs \<and>
                 set evs \<subseteq> {Print (MsgFatal e), Print (MsgCleanedUp tmp), Input}"
    by auto
  from run rest show "\<And>q. \<not> prefix tmp q \<Longrightarrow> stat (fs (snd (main env w))) q = stat (fs w1) q"
    by simp
  have "stat t ?M = stat (fs w) ?M"
  proof (cases "prefix tmp ?M")
    case True
    from stat_below_absent [OF gone True] stat_below_absent [OF f(4) True]
    show ?thesis by simp
  next
    case False
    let ?k = "stat (fs w) ?M"
    from f(2) False have k0: "stat (fs w0) ?M = ?k"
      by (auto dest: mkdir_stat)
    have above: "prefix ?M tmp \<longrightarrow> ?k \<noteq> Absent"
    proof
      assume "prefix ?M tmp"
      from stat_prefix_dir [OF f(5) this] k0 show "?k \<noteq> Absent" by simp
    qed
    have stage: "preserves (\<lambda>t. stat t ?M = ?k) s'" if "s' \<in> set (install_stages env tmp)" for s'
      using False above that by (rule install_stages_keep_manifest)
    from split have "preserves (\<lambda>t. stat t ?M = ?k) (block pre)"
      by (intro preserves_block stage) simp
    from preservesD [OF this _ pre] k0 have "stat (fs wa) ?M = ?k"
      by simp
    moreover from split have "preserves (\<lambda>t. stat t ?M = ?k) s"
      by (intro stage) simp
    ultimately have "stat (fs w1) ?M = ?k"
      using s by (auto dest: preservesD)
    with rest [OF False] show ?thesis by simp
  qed
  with run show "stat (fs (snd (main env w))) ?M = stat (fs w) ?M"
    by simp
qed

text \<open>A run on the example machine whose first download meets a 404.\<close>

lemma main_failure_example:
  "main (example_env not_found) \<lparr>fs = installed_machine [], trace = []\<rparr> =
     (Inr (),
      \<lparr>fs = installed_machine [],
       trace = [MkDtemp [''tmp'', ''tmp1''], Print (MsgUsingTemp [''tmp'', ''tmp1'']),
                Print (MsgDownloading modpack_zip_url), HttpGet modpack_zip_url,
                Print (MsgDownloadFailed (HTTPError 404
                  ''404 Client Error: Not Found for url: https://next.buettner.tech/s/2e3Y7r6MTCeTCRL/download/mods.zip'')),
                Print (MsgFatal (HTTPError 404
                  ''404 Client Error: Not Found for url: https://next.buettner.tech/s/2e3Y7r6MTCeTCRL/download/mods.zip'')),
                Print (MsgCleanedUp [''tmp'', ''tmp1'']), Input]\<rparr>)"
  by code_simp

text \<open>
  C3 fails on the code: the message of line 131 shows the path of the temporary directory
  as markup, after the directory was made and before the \<^verbatim>\<open>try\<close> whose \<^verbatim>\<open>finally\<close>
  removes it. When the directory for temporary files has a name that holds a closing tag,
  the print raises \<^verbatim>\<open>MarkupError\<close>, \<^verbatim>\<open>main\<close> ends with it, no stage is attempted and the
  temporary directory stays.
\<close>

theorem main_leaves_temporary_directory:
  "main \<lparr>home_dir = [''home''], http = not_found, fresh_tmp = [''tmp'', ''t[/x]'', ''tmp1'']\<rparr>
        \<lparr>fs = Dir [(''home'', Dir [(''AppData'', Dir [(''Roaming'', Dir [(''.minecraft'',
                      Dir [(''labymod-neo'', Dir [])])])])]),
                   (''tmp'', Dir [(''t[/x]'', Dir [])])],
         trace = []\<rparr> =
     (Inl (MarkupError (''closing tag '' @ quoted ''[/x]'' @ '' at position 39 doesn'' @ [CHR 0x27] @
                        ''t match any open tag'')),
      \<lparr>fs = Dir [(''home'', Dir [(''AppData'', Dir [(''Roaming'', Dir [(''.minecraft'',
                      Dir [(''labymod-neo'', Dir [])])])])]),
                 (''tmp'', Dir [(''t[/x]'', Dir [(''tmp1'', Dir [])])])],
       trace = [MkDtemp [''tmp'', ''t[/x]'', ''tmp1'']]\<rparr>)"
  by code_simp


end
